theory Spec2Isabelle
  imports Main
begin

section \<open>The row store\<close>

text \<open>
  The tables of \<^verbatim>\<open>supabase/migrations\<close>. A UUID is an abstract identifier and a
  timestamp an abstract instant; both are natural numbers here. Each table is the list of
  its rows in insertion order, so the row opened last is the last one in the list.
\<close>

type_synonym uuid = nat
type_synonym instant = nat

record meeting =
  m_id :: uuid
  m_title :: string
  created_by :: uuid
  is_active :: bool
  m_created_at :: instant
  m_ended_at :: "instant option"

record participant =
  p_id :: uuid
  p_meeting_id :: uuid
  p_name :: string
  total_speaking_time :: int
  speaking_sessions :: int
  is_currently_speaking :: bool

record speaking_session =
  s_id :: uuid
  participant_id :: uuid
  meeting_id :: uuid
  started_at :: instant
  ended_at :: "instant option"
  duration :: "int option"

record question =
  q_id :: uuid
  q_meeting_id :: uuid
  q_question :: string
  asker_name :: "string option"
  is_answered :: bool

record store =
  tbl_meetings :: "meeting list"
  tbl_participants :: "participant list"
  tbl_sessions :: "speaking_session list"
  tbl_questions :: "question list"

datatype db_error = Unreachable | PrimaryKeyViolation | ForeignKeyViolation
  | PolicyViolation | NotNullViolation | UndefinedColumn

text \<open>
  Row-level security. Every policy on \<^verbatim>\<open>participants\<close> and \<^verbatim>\<open>speaking_sessions\<close> is
  \<^verbatim>\<open>meeting_id IN (SELECT id FROM meetings WHERE created_by = auth.uid())\<close>; the policies
  on \<^verbatim>\<open>meetings\<close> are \<^verbatim>\<open>created_by = auth.uid()\<close>. \<open>None\<close> is a caller without a session.
\<close>

definition owns :: "store \<Rightarrow> uuid option \<Rightarrow> uuid \<Rightarrow> bool" where
  "owns s u m = (\<exists>r \<in> set (tbl_meetings s). m_id r = m \<and> Some (created_by r) = u)"

definition update_meetings ::
  "uuid option \<Rightarrow> (meeting \<Rightarrow> bool) \<Rightarrow> (meeting \<Rightarrow> meeting) \<Rightarrow> store \<Rightarrow> store" where
  "update_meetings u P f s =
     s\<lparr>tbl_meetings := map (\<lambda>r. if P r \<and> Some (created_by r) = u then f r else r) (tbl_meetings s)\<rparr>"

definition update_participants ::
  "uuid option \<Rightarrow> (participant \<Rightarrow> bool) \<Rightarrow> (participant \<Rightarrow> participant) \<Rightarrow> store \<Rightarrow> store" where
  "update_participants u P f s =
     s\<lparr>tbl_participants :=
         map (\<lambda>r. if P r \<and> owns s u (p_meeting_id r) then f r else r) (tbl_participants s)\<rparr>"

definition update_sessions ::
  "uuid option \<Rightarrow> (speaking_session \<Rightarrow> bool) \<Rightarrow> (speaking_session \<Rightarrow> speaking_session)
     \<Rightarrow> store \<Rightarrow> store" where
  "update_sessions u P f s =
     s\<lparr>tbl_sessions :=
         map (\<lambda>r. if P r \<and> owns s u (meeting_id r) then f r else r) (tbl_sessions s)\<rparr>"

definition select_sessions ::
  "uuid option \<Rightarrow> (speaking_session \<Rightarrow> bool) \<Rightarrow> store \<Rightarrow> speaking_session list" where
  "select_sessions u P s = filter (\<lambda>r. P r \<and> owns s u (meeting_id r)) (tbl_sessions s)"

definition select_participants ::
  "uuid option \<Rightarrow> (participant \<Rightarrow> bool) \<Rightarrow> store \<Rightarrow> participant list" where
  "select_participants u P s =
     filter (\<lambda>r. P r \<and> owns s u (p_meeting_id r)) (tbl_participants s)"

text \<open>
  An insert is refused when the primary key is taken, when a foreign key points nowhere,
  or when the policy's check rejects the new row.
\<close>

definition insert_session :: "uuid option \<Rightarrow> speaking_session \<Rightarrow> store \<Rightarrow> db_error + store" where
  "insert_session u row s =
     (if s_id row \<in> s_id ` set (tbl_sessions s) then Inl PrimaryKeyViolation
      else if participant_id row \<notin> p_id ` set (tbl_participants s) then Inl ForeignKeyViolation
      else if \<not> owns s u (meeting_id row) then Inl PolicyViolation
      else Inr (s\<lparr>tbl_sessions := tbl_sessions s @ [row]\<rparr>))"

text \<open>
  A request names its columns. The two timestamp columns of \<^verbatim>\<open>speaking_sessions\<close> are
  \<^verbatim>\<open>started_at\<close> and \<^verbatim>\<open>ended_at\<close>; under any other name there is nothing to read or to
  write, and the store refuses the request.
\<close>

definition read_timestamp :: "string \<Rightarrow> (speaking_session \<Rightarrow> instant option) option" where
  "read_timestamp column =
     (if column = ''started_at'' then Some (\<lambda>r. Some (started_at r))
      else if column = ''ended_at'' then Some ended_at
      else None)"

definition write_timestamp ::
  "string \<Rightarrow> (instant \<Rightarrow> speaking_session \<Rightarrow> speaking_session) option" where
  "write_timestamp column =
     (if column = ''started_at'' then Some (\<lambda>v r. r\<lparr>started_at := v\<rparr>)
      else if column = ''ended_at'' then Some (\<lambda>v r. r\<lparr>ended_at := Some v\<rparr>)
      else None)"

text \<open>An insert that gives the timestamp column \<open>column\<close> the value \<open>v\<close>.\<close>

definition insert_session_stamped ::
  "uuid option \<Rightarrow> string \<Rightarrow> instant \<Rightarrow> speaking_session \<Rightarrow> store \<Rightarrow> db_error + store" where
  "insert_session_stamped u column v row s =
     (case write_timestamp column of
        None \<Rightarrow> Inl UndefinedColumn
      | Some write \<Rightarrow> insert_session u (write v row) s)"

text \<open>
  An update that sets the timestamp column \<open>column\<close> to \<open>v\<close> on the rows that satisfy
  \<open>P\<close> and have that column null.
\<close>

definition stamp_sessions_where_null ::
  "uuid option \<Rightarrow> string \<Rightarrow> instant \<Rightarrow> (speaking_session \<Rightarrow> bool) \<Rightarrow> store
     \<Rightarrow> db_error + store" where
  "stamp_sessions_where_null u column v P s =
     (case (read_timestamp column, write_timestamp column) of
        (Some read, Some write) \<Rightarrow>
          Inr (update_sessions u (\<lambda>r. P r \<and> read r = None) (write v) s)
      | _ \<Rightarrow> Inl UndefinedColumn)"

definition insert_participants ::
  "uuid option \<Rightarrow> participant list \<Rightarrow> store \<Rightarrow> db_error + store" where
  "insert_participants u rows s =
     (if \<not> distinct (map p_id rows)
         \<or> (\<exists>r \<in> set rows. p_id r \<in> p_id ` set (tbl_participants s))
      then Inl PrimaryKeyViolation
      else if \<exists>r \<in> set rows. \<not> owns s u (p_meeting_id r) then Inl PolicyViolation
      else Inr (s\<lparr>tbl_participants := tbl_participants s @ rows\<rparr>))"

text \<open>
  \<^verbatim>\<open>created_by\<close> is \<^verbatim>\<open>NOT NULL\<close> and the insert policy demands that it is the caller, so
  the column is filled from the caller's identity and a caller without one is refused.
  \<^verbatim>\<open>is_active\<close> defaults to true.
\<close>

definition insert_meeting ::
  "uuid option \<Rightarrow> uuid \<Rightarrow> string \<Rightarrow> instant \<Rightarrow> store \<Rightarrow> db_error + store" where
  "insert_meeting u new_id title_text stamp s =
     (case u of
        None \<Rightarrow> Inl NotNullViolation
      | Some user \<Rightarrow>
          if new_id \<in> m_id ` set (tbl_meetings s) then Inl PrimaryKeyViolation
          else Inr (s\<lparr>tbl_meetings := tbl_meetings s @
                       [\<lparr>m_id = new_id, m_title = title_text, created_by = user,
                         is_active = True, m_created_at = stamp, m_ended_at = None\<rparr>]\<rparr>))"

text \<open>Anyone may insert a question; the meeting it names has to exist.\<close>

definition insert_question :: "question \<Rightarrow> store \<Rightarrow> db_error + store" where
  "insert_question row s =
     (if q_id row \<in> q_id ` set (tbl_questions s) then Inl PrimaryKeyViolation
      else if q_meeting_id row \<notin> m_id ` set (tbl_meetings s) then Inl ForeignKeyViolation
      else Inr (s\<lparr>tbl_questions := tbl_questions s @ [row]\<rparr>))"

section \<open>Remote calls\<close>

text \<open>
  Every query of the client is a round trip that resolves to a result or an error; it never
  throws. The environment of one user action holds what the action reads from outside:
  the caller's identity, the client clock, the clock of the store, the identifiers the
  store generates (in the order they are asked for), the round trips that come back with
  an error for a reason outside the tables (the network, a refused request), and the
  characters that \<^verbatim>\<open>String.prototype.trim\<close> strips.
\<close>

datatype remote_call =
    ClearSpeaking | SelectOpen | CloseOpen | InsertSession | MarkSpeaking
  | CloseSession | UpdateStats
  | SetSpeaking | EndSessions
  | EndMeetings | InsertMeeting | InsertParticipants
  | InsertQuestion | FetchParticipants

record env =
  auth_uid :: "uuid option"
  clock :: instant
  db_clock :: instant
  gen_id :: "nat \<Rightarrow> uuid"
  lost :: "remote_call list"
  white_space :: "char \<Rightarrow> bool"

text \<open>A call whose result the code does not inspect: when it is lost nothing happens.\<close>

definition call_unchecked :: "env \<Rightarrow> remote_call \<Rightarrow> (store \<Rightarrow> store) \<Rightarrow> store \<Rightarrow> store" where
  "call_unchecked e c f s = (if c \<in> set (lost e) then s else f s)"

text \<open>A call whose \<^verbatim>\<open>error\<close> the code reads.\<close>

definition call_checked ::
  "env \<Rightarrow> remote_call \<Rightarrow> (store \<Rightarrow> db_error + store) \<Rightarrow> store \<Rightarrow> db_error + store" where
  "call_checked e c f s = (if c \<in> set (lost e) then Inl Unreachable else f s)"

text \<open>
  A toast is its title and description; \<open>MeetingCreated\<close> is the one whose description is
  assembled from the title typed and the number of participants.
\<close>

datatype toast = Destructive string string | Notice string string | MeetingCreated string nat

definition trim :: "env \<Rightarrow> string \<Rightarrow> string" where
  "trim e str = rev (dropWhile (white_space e) (rev (dropWhile (white_space e) str)))"

section \<open>ParticipantTimer\<close>

text \<open>The component's two state cells, \<^verbatim>\<open>currentSessionTime\<close> and \<^verbatim>\<open>activeSessionId\<close>.\<close>

record timer =
  currentSessionTime :: int
  activeSessionId :: "uuid option"

definition timer_init :: timer where
  "timer_init = \<lparr>currentSessionTime = 0, activeSessionId = None\<rparr>"

text \<open>
  The interval installed by the effect: it runs while the \<^verbatim>\<open>participant\<close> prop is marked
  speaking and adds one per second.
\<close>

definition tick :: "participant \<Rightarrow> timer \<Rightarrow> timer" where
  "tick participant t =
     (if is_currently_speaking participant
      then t\<lparr>currentSessionTime := currentSessionTime t + 1\<rparr> else t)"

text \<open>
  The block of \<^verbatim>\<open>startSpeaking\<close> under the comment "End any active sessions": the ids of
  the meeting's rows with \<^verbatim>\<open>ended_at\<close> null are selected, and when the list is not empty
  those rows get \<^verbatim>\<open>ended_at\<close> stamped with the client's clock. A lost select yields
  \<^verbatim>\<open>data = null\<close>, which skips the update.
\<close>

definition end_active_sessions :: "env \<Rightarrow> uuid \<Rightarrow> store \<Rightarrow> store" where
  "end_active_sessions e meetingId s =
     (let activeSessions =
            (if SelectOpen \<in> set (lost e) then None
             else Some (select_sessions (auth_uid e)
                          (\<lambda>r. meeting_id r = meetingId \<and> ended_at r = None) s))
      in case activeSessions of
           None \<Rightarrow> s
         | Some rows \<Rightarrow>
             if length rows > 0
             then call_unchecked e CloseOpen
                    (update_sessions (auth_uid e) (\<lambda>r. s_id r \<in> set (map s_id rows))
                       (\<lambda>r. r\<lparr>ended_at := Some (clock e)\<rparr>)) s
             else s)"

text \<open>
  \<^verbatim>\<open>startSpeaking\<close>. The props are \<open>participant\<close> (the row as the parent last fetched it)
  and \<open>meetingId\<close>. Only the insert's error is inspected; it throws into the \<^verbatim>\<open>catch\<close>,
  which shows the toast and leaves the component state as it was.
\<close>

definition startSpeaking ::
  "env \<Rightarrow> participant \<Rightarrow> uuid \<Rightarrow> timer \<Rightarrow> store \<Rightarrow> store \<times> timer \<times> toast option" where
  "startSpeaking e participant meetingId t s =
     (let s1 = call_unchecked e ClearSpeaking
                 (update_participants (auth_uid e) (\<lambda>r. p_meeting_id r = meetingId)
                    (\<lambda>r. r\<lparr>is_currently_speaking := False\<rparr>)) s;
          s2 = end_active_sessions e meetingId s1;
          newSession = \<lparr>s_id = gen_id e 0, participant_id = p_id participant,
                        meeting_id = meetingId, started_at = db_clock e,
                        ended_at = None, duration = None\<rparr>
      in case call_checked e InsertSession (insert_session (auth_uid e) newSession) s2 of
           Inl sessionError \<Rightarrow>
             (s2, t, Some (Destructive ''Error'' ''Failed to start speaking session''))
         | Inr s3 \<Rightarrow>
             (call_unchecked e MarkSpeaking
                (update_participants (auth_uid e) (\<lambda>r. p_id r = p_id participant)
                   (\<lambda>r. r\<lparr>is_currently_speaking := True\<rparr>)) s3,
              \<lparr>currentSessionTime = 0, activeSessionId = Some (s_id newSession)\<rparr>,
              None))"

text \<open>
  \<^verbatim>\<open>stopSpeaking\<close>. No result is inspected, so the \<^verbatim>\<open>catch\<close> is never entered. The new
  totals are computed from the \<open>participant\<close> prop, not from the stored row.
\<close>

definition stopSpeaking ::
  "env \<Rightarrow> participant \<Rightarrow> timer \<Rightarrow> store \<Rightarrow> store \<times> timer \<times> toast option" where
  "stopSpeaking e participant t s =
     (let sessionDuration = currentSessionTime t;
          s1 = (case activeSessionId t of
                  None \<Rightarrow> s
                | Some sid \<Rightarrow>
                    call_unchecked e CloseSession
                      (update_sessions (auth_uid e) (\<lambda>r. s_id r = sid)
                         (\<lambda>r. r\<lparr>ended_at := Some (clock e),
                                 duration := Some sessionDuration\<rparr>)) s);
          s2 = call_unchecked e UpdateStats
                 (update_participants (auth_uid e) (\<lambda>r. p_id r = p_id participant)
                    (\<lambda>r. r\<lparr>is_currently_speaking := False,
                            total_speaking_time := total_speaking_time participant + sessionDuration,
                            speaking_sessions := speaking_sessions participant + 1\<rparr>)) s1
      in (s2, \<lparr>currentSessionTime = 0, activeSessionId = None\<rparr>, None))"

text \<open>
  The card's button: \<^verbatim>\<open>onClick={participant.is_currently_speaking ? stopSpeaking :
  startSpeaking}\<close>.
\<close>

definition press ::
  "env \<Rightarrow> participant \<Rightarrow> uuid \<Rightarrow> timer \<Rightarrow> store \<Rightarrow> store \<times> timer \<times> toast option" where
  "press e participant meetingId t s =
     (if is_currently_speaking participant then stopSpeaking e participant t s
      else startSpeaking e participant meetingId t s)"

section \<open>ParticipantsNameList\<close>

text \<open>
  \<^verbatim>\<open>addParticipant\<close>: the state cell is the text of the input box. A blank name returns at
  once, without a message.
\<close>

definition addParticipant ::
  "env \<Rightarrow> uuid \<Rightarrow> string \<Rightarrow> store \<Rightarrow> store \<times> string \<times> toast option" where
  "addParticipant e meetingId newParticipantName s =
     (if trim e newParticipantName = [] then (s, newParticipantName, None)
      else
        case call_checked e InsertParticipants
               (insert_participants (auth_uid e)
                  [\<lparr>p_id = gen_id e 0, p_meeting_id = meetingId,
                    p_name = trim e newParticipantName, total_speaking_time = 0,
                    speaking_sessions = 0, is_currently_speaking = False\<rparr>]) s of
          Inl error \<Rightarrow>
            (s, newParticipantName, Some (Destructive ''Error'' ''Failed to add participant''))
        | Inr s1 \<Rightarrow> (s1, [], Some (Notice ''Success'' ''Participant added successfully'')))"

text \<open>
  \<^verbatim>\<open>toggleParticipantSpeaking\<close>: the props are the fetched \<open>participants\<close> and
  \<open>meetingId\<close>; the state cell is \<^verbatim>\<open>activeParticipant\<close>. Its two requests on
  \<^verbatim>\<open>speaking_sessions\<close> name the timestamp columns \<^verbatim>\<open>start_time\<close> and \<^verbatim>\<open>end_time\<close>, as
  the source writes them. The row handed to the insert is what the other columns of the
  request and the table's defaults make.
\<close>

definition toggleParticipantSpeaking ::
  "env \<Rightarrow> participant list \<Rightarrow> uuid \<Rightarrow> uuid \<Rightarrow> uuid option \<Rightarrow> store
     \<Rightarrow> store \<times> uuid option \<times> toast option" where
  "toggleParticipantSpeaking e participants meetingId participantId activeParticipant s =
     (case find (\<lambda>p. p_id p = participantId) participants of
        None \<Rightarrow> (s, activeParticipant, None)
      | Some participant \<Rightarrow>
          let failed = Some (Destructive ''Error'' ''Failed to update speaking status'');
              newStatus = (\<not> is_currently_speaking participant);
              s1 = (if newStatus
                    then call_unchecked e ClearSpeaking
                           (update_participants (auth_uid e) (\<lambda>r. p_meeting_id r = meetingId)
                              (\<lambda>r. r\<lparr>is_currently_speaking := False\<rparr>)) s
                    else s)
          in case call_checked e SetSpeaking
                    (\<lambda>x. Inr (update_participants (auth_uid e) (\<lambda>r. p_id r = participantId)
                                 (\<lambda>r. r\<lparr>is_currently_speaking := newStatus\<rparr>) x)) s1 of
               Inl error \<Rightarrow> (s1, activeParticipant, failed)
             | Inr s2 \<Rightarrow>
                 if newStatus
                 then (case call_checked e InsertSession
                              (insert_session_stamped (auth_uid e) ''start_time'' (clock e)
                                 \<lparr>s_id = gen_id e 0, participant_id = participantId,
                                   meeting_id = meetingId, started_at = db_clock e,
                                   ended_at = None, duration = None\<rparr>) s2 of
                         Inl sessionError \<Rightarrow> (s2, activeParticipant, failed)
                       | Inr s3 \<Rightarrow> (s3, Some participantId, None))
                 else (case call_checked e EndSessions
                              (stamp_sessions_where_null (auth_uid e) ''end_time'' (clock e)
                                 (\<lambda>r. participant_id r = participantId)) s2 of
                         Inl endError \<Rightarrow> (s2, activeParticipant, failed)
                       | Inr s3 \<Rightarrow> (s3, None, None)))"

section \<open>CreateMeetingDialog\<close>

text \<open>The form: the title typed and the list of participant names typed.\<close>

record form =
  f_title :: string
  f_participants :: "string list"

definition form_reset :: form where
  "form_reset = \<lparr>f_title = [], f_participants = [[]]\<rparr>"

text \<open>
  \<^verbatim>\<open>handleCreate\<close>. The two validations return before anything is sent. The update that
  ends the active meetings is not inspected; the two inserts are. The new participants
  take the table's defaults.
\<close>

definition handleCreate :: "env \<Rightarrow> form \<Rightarrow> store \<Rightarrow> store \<times> form \<times> toast option" where
  "handleCreate e f s =
     (if trim e (f_title f) = []
      then (s, f, Some (Destructive ''Error'' ''Please enter a meeting title''))
      else
        let validParticipants = filter (\<lambda>p. trim e p \<noteq> []) (f_participants f)
        in if length validParticipants = 0
           then (s, f, Some (Destructive ''Error'' ''Please add at least one participant''))
           else
             let failed = Some (Destructive ''Error'' ''Failed to create meeting'');
                 s1 = call_unchecked e EndMeetings
                        (update_meetings (auth_uid e) (\<lambda>r. is_active r)
                           (\<lambda>r. r\<lparr>is_active := False, m_ended_at := Some (clock e)\<rparr>)) s
             in case call_checked e InsertMeeting
                       (insert_meeting (auth_uid e) (gen_id e 0) (trim e (f_title f))
                          (db_clock e)) s1 of
                  Inl meetingError \<Rightarrow> (s1, f, failed)
                | Inr s2 \<Rightarrow>
                    let participantData =
                          map (\<lambda>(i, name).
                                 \<lparr>p_id = gen_id e (Suc i), p_meeting_id = gen_id e 0,
                                   p_name = trim e name, total_speaking_time = 0,
                                   speaking_sessions = 0, is_currently_speaking = False\<rparr>)
                              (enumerate 0 validParticipants)
                    in case call_checked e InsertParticipants
                              (insert_participants (auth_uid e) participantData) s2 of
                         Inl participantsError \<Rightarrow> (s2, f, failed)
                       | Inr s3 \<Rightarrow>
                           (s3, form_reset,
                            Some (MeetingCreated (f_title f) (length validParticipants))))"

text \<open>The run went through: the toast shown is the one that announces the meeting.\<close>

definition created :: "toast option \<Rightarrow> bool" where
  "created t = (case t of Some (MeetingCreated _ _) \<Rightarrow> True | _ \<Rightarrow> False)"

section \<open>QuestionsPanel\<close>

text \<open>\<^verbatim>\<open>submitQuestion\<close>: the state cells read are the question text, the name and the
  anonymity box; the one written is the question text.\<close>

definition submitQuestion ::
  "env \<Rightarrow> uuid \<Rightarrow> string \<Rightarrow> string \<Rightarrow> bool \<Rightarrow> store \<Rightarrow> store \<times> string \<times> toast option" where
  "submitQuestion e meetingId newQuestion askerName isAnonymous s =
     (if trim e newQuestion = []
      then (s, newQuestion, Some (Destructive ''Error'' ''Please enter a question''))
      else if \<not> isAnonymous \<and> trim e askerName = []
      then (s, newQuestion,
            Some (Destructive ''Error'' ''Please enter your name or submit anonymously''))
      else
        case call_checked e InsertQuestion
               (insert_question
                  \<lparr>q_id = gen_id e 0, q_meeting_id = meetingId,
                    q_question = trim e newQuestion,
                    asker_name = (if isAnonymous then None else Some (trim e askerName)),
                    is_answered = False\<rparr>) s of
          Inl error \<Rightarrow>
            (s, newQuestion, Some (Destructive ''Error'' ''Failed to submit question''))
        | Inr s1 \<Rightarrow>
            (s1, [], Some (Notice ''Question submitted''
                            ''Your question has been added to the meeting'')))"

section \<open>ActiveMeetingView\<close>

text \<open>
  \<^verbatim>\<open>localCounters\<close> is an object keyed by participant id; it is the list of its entries
  here, so that counting its keys is looking at the list.
\<close>

record counter =
  startTime :: instant
  baseSeconds :: int

type_synonym counters = "(uuid \<times> counter) list"

text \<open>
  The effect "Sync local counters with database participant state". \<open>date_now\<close> is what
  \<^verbatim>\<open>Date.now()\<close> returns when the effect runs. \<^verbatim>\<open>x || 0\<close> on a number is \<open>x\<close> unless
  \<open>x\<close> is zero.
\<close>

definition sync_counters :: "instant \<Rightarrow> participant list \<Rightarrow> counters \<Rightarrow> counters" where
  "sync_counters date_now participants localCounters =
     (case find is_currently_speaking participants of
        Some currentSpeaker \<Rightarrow>
          if map_of localCounters (p_id currentSpeaker) = None
          then [(p_id currentSpeaker,
                 \<lparr>startTime = date_now,
                   baseSeconds = (if total_speaking_time currentSpeaker \<noteq> 0
                                  then total_speaking_time currentSpeaker else 0)\<rparr>)]
          else localCounters
      | None \<Rightarrow> if length localCounters > 0 then [] else localCounters)"

text \<open>
  \<^verbatim>\<open>fetchParticipants\<close>: the meeting's participants, the largest total first (rows with
  the same total stay in the order of the table). \<open>participants\<close> is the state cell it
  sets; an error leaves the cell and shows the toast.
\<close>

definition fetchParticipants ::
  "env \<Rightarrow> uuid \<Rightarrow> participant list \<Rightarrow> store \<Rightarrow> participant list \<times> toast option" where
  "fetchParticipants e meetingId participants s =
     (if FetchParticipants \<in> set (lost e)
      then (participants, Some (Destructive ''Error'' ''Failed to load participants''))
      else (sort_key (\<lambda>r. - total_speaking_time r)
              (select_participants (auth_uid e) (\<lambda>r. p_meeting_id r = meetingId) s),
            None))"

section \<open>One client at work\<close>

text \<open>
  A client looks at one meeting. It holds the store it talks to, the participants as it
  last fetched them (the state cell \<^verbatim>\<open>participants\<close> of the view, from which every card
  and the name list take their props), and for every participant card on screen the state
  of that card's \<^verbatim>\<open>ParticipantTimer\<close> (React keeps one instance per participant id).

  An operation ends with \<^verbatim>\<open>onUpdate()\<close>, which starts \<^verbatim>\<open>fetchParticipants\<close> and does not
  wait for it. The fetch is therefore an action of its own, \<open>Refetch\<close>, that comes when
  it comes: until then the cards show, and act on, the rows of the fetch before.
\<close>

record client =
  db :: store
  meeting :: uuid
  fetched :: "participant list"
  timers :: "uuid \<Rightarrow> timer"

datatype action =
    AddParticipant env string
  | Press env uuid
  | Tick uuid
  | Toggle env uuid
  | Refetch env
  | CreateMeeting env form

definition card_of :: "client \<Rightarrow> uuid \<Rightarrow> participant option" where
  "card_of c pid = find (\<lambda>p. p_id p = pid) (fetched c)"

fun perform :: "action \<Rightarrow> client \<Rightarrow> client" where
  "perform (AddParticipant e name) c =
     c\<lparr>db := fst (addParticipant e (meeting c) name (db c))\<rparr>"
| "perform (Press e pid) c =
     (case card_of c pid of
        None \<Rightarrow> c
      | Some participant \<Rightarrow>
          (case press e participant (meeting c) (timers c pid) (db c) of
             (s, t, _) \<Rightarrow> c\<lparr>db := s, timers := (timers c)(pid := t)\<rparr>))"
| "perform (Tick pid) c =
     (case card_of c pid of
        None \<Rightarrow> c
      | Some participant \<Rightarrow> c\<lparr>timers := (timers c)(pid := tick participant (timers c pid))\<rparr>)"
| "perform (Toggle e pid) c =
     c\<lparr>db := fst (toggleParticipantSpeaking e (fetched c) (meeting c) pid None (db c))\<rparr>"
| "perform (Refetch e) c =
     c\<lparr>fetched := fst (fetchParticipants e (meeting c) (fetched c) (db c))\<rparr>"
| "perform (CreateMeeting e f) c = c\<lparr>db := fst (handleCreate e f (db c))\<rparr>"

fun run :: "action list \<Rightarrow> client \<Rightarrow> client" where
  "run [] c = c"
| "run (a # as) c = run as (perform a c)"

text \<open>
  An action of the view that shows the cards, with no call of the card's start or stop
  failing: the toggle belongs to the other view.
\<close>

fun clean :: "action \<Rightarrow> bool" where
  "clean (Press e pid) = (lost e = [])"
| "clean (Toggle e pid) = False"
| "clean (AddParticipant e name) = True"
| "clean (Tick pid) = True"
| "clean (Refetch e) = True"
| "clean (CreateMeeting e f) = True"

text \<open>
  The cards are cards of the meeting's participants: every fetched row is of the meeting
  the client looks at, and the store has a row of that id in that meeting.
\<close>

definition in_step :: "client \<Rightarrow> bool" where
  "in_step c =
     (\<forall>p \<in> set (fetched c). p_meeting_id p = meeting c \<and>
        (\<exists>r \<in> set (tbl_participants (db c)). p_id r = p_id p \<and> p_meeting_id r = meeting c))"

text \<open>Every participant row of \<open>s\<close> has a row in \<open>s'\<close> with its id, in its meeting.\<close>

definition keeps_rows :: "store \<Rightarrow> store \<Rightarrow> bool" where
  "keeps_rows s s' =
     (\<forall>r \<in> set (tbl_participants s). \<exists>r' \<in> set (tbl_participants s').
        p_id r' = p_id r \<and> p_meeting_id r' = p_meeting_id r)"



text \<open>
  The \<open>participant\<close> prop carries the stored totals: every stored row of its id has the
  prop's \<open>total_speaking_time\<close> and \<open>speaking_sessions\<close>.
\<close>

definition current :: "participant \<Rightarrow> store \<Rightarrow> bool" where
  "current participant s =
     (\<forall>r \<in> set (tbl_participants s). p_id r = p_id participant \<longrightarrow>
        total_speaking_time r = total_speaking_time participant
        \<and> speaking_sessions r = speaking_sessions participant)"


section \<open>Invariants of the ledger\<close>

text \<open>
  Of a participant's sessions only the one opened last can be open. With the primary keys
  and the foreign key from a session to its participant (whose meeting the session
  repeats), this is what the timer's operations keep true.
\<close>

definition open_is_latest :: "speaking_session list \<Rightarrow> bool" where
  "open_is_latest ss =
     (\<forall>r \<in> set ss. ended_at r = None \<longrightarrow>
        last (filter (\<lambda>x. participant_id x = participant_id r) ss) = r)"

definition ledger_ok :: "store \<Rightarrow> bool" where
  "ledger_ok s =
     (distinct (map s_id (tbl_sessions s)) \<and>
      distinct (map p_id (tbl_participants s)) \<and>
      (\<forall>r \<in> set (tbl_sessions s). \<exists>q \<in> set (tbl_participants s).
          p_id q = participant_id r \<and> p_meeting_id q = meeting_id r) \<and>
      open_is_latest (tbl_sessions s))"

section \<open>The participant aggregate\<close>

text \<open>
  What a participant row accumulates: its running totals, told apart by the row's id.
\<close>

definition aggregates :: "store \<Rightarrow> (uuid \<times> int \<times> int) list" where
  "aggregates s =
     map (\<lambda>r. (p_id r, total_speaking_time r, speaking_sessions r)) (tbl_participants s)"

section \<open>A meeting with Alice and Bob\<close>

text \<open>The store of the scenarios: one meeting, owned by user 7, with two participants.\<close>

definition alice :: participant where
  "alice = \<lparr>p_id = 10, p_meeting_id = 1, p_name = ''Alice'', total_speaking_time = 0,
            speaking_sessions = 0, is_currently_speaking = False\<rparr>"

definition bob :: participant where
  "bob = \<lparr>p_id = 11, p_meeting_id = 1, p_name = ''Bob'', total_speaking_time = 0,
          speaking_sessions = 0, is_currently_speaking = False\<rparr>"

definition standup :: meeting where
  "standup = \<lparr>m_id = 1, m_title = ''Standup'', created_by = 7, is_active = True,
              m_created_at = 0, m_ended_at = None\<rparr>"

definition store0 :: store where
  "store0 = \<lparr>tbl_meetings = [standup], tbl_participants = [alice, bob],
             tbl_sessions = [], tbl_questions = []\<rparr>"

definition alice_speaking :: participant where
  "alice_speaking = alice\<lparr>is_currently_speaking := True\<rparr>"

text \<open>The same store once Alice has started to speak at time 100, in session 50.\<close>

definition store1 :: store where
  "store1 = \<lparr>tbl_meetings = [standup],
             tbl_participants = [alice_speaking, bob],
             tbl_sessions = [\<lparr>s_id = 50, participant_id = 10, meeting_id = 1,
                              started_at = 100, ended_at = None, duration = None\<rparr>],
             tbl_questions = []\<rparr>"

text \<open>Alice's card five seconds later.\<close>

definition timer5 :: timer where
  "timer5 = \<lparr>currentSessionTime = 5, activeSessionId = Some 50\<rparr>"

text \<open>User 7 at time \<open>now\<close>, with the store handing out \<open>fresh\<close>, \<open>fresh + 1\<close>, ... as ids
  and no call failing.\<close>

definition user7 :: "instant \<Rightarrow> uuid \<Rightarrow> env" where
  "user7 now fresh = \<lparr>auth_uid = Some 7, clock = now, db_clock = now,
                      gen_id = (\<lambda>i. fresh + i), lost = [],
                      white_space = (\<lambda>c. c = CHR '' '')\<rparr>"

text \<open>The store once Alice has stopped at 105, after five ticks.\<close>

definition store2 :: store where
  "store2 = \<lparr>tbl_meetings = [standup],
             tbl_participants = [alice\<lparr>total_speaking_time := 5, speaking_sessions := 1\<rparr>, bob],
             tbl_sessions = [\<lparr>s_id = 50, participant_id = 10, meeting_id = 1,
                              started_at = 100, ended_at = Some 105, duration = Some 5\<rparr>],
             tbl_questions = []\<rparr>"

text \<open>
  A client that has just opened the meeting. Scenario A as its actions: Alice's card is
  pressed, the fetch comes in and the card ticks five times (\<open>alice_talks\<close>), then the
  card is pressed again. In \<open>double_stop\<close> the card is pressed once more before the next
  fetch is in.
\<close>

definition client0 :: client where
  "client0 = \<lparr>db = store0, meeting = 1, fetched = [alice, bob], timers = (\<lambda>_. timer_init)\<rparr>"

definition alice_talks :: "action list" where
  "alice_talks = [Press (user7 100 50) 10, Refetch (user7 101 0),
                  Tick 10, Tick 10, Tick 10, Tick 10, Tick 10]"

definition scenario_A :: "action list" where
  "scenario_A = alice_talks @ [Press (user7 105 51) 10]"

definition double_stop :: "action list" where
  "double_stop = scenario_A @ [Press (user7 106 52) 10]"

section \<open>Facts about the store's primitives\<close>

lemma owns_cong: "tbl_meetings s' = tbl_meetings s \<Longrightarrow> owns s' = owns s"
  by (intro ext) (simp add: owns_def)

lemma update_participants_tables:
  "tbl_meetings (update_participants u P f s) = tbl_meetings s"
  "tbl_sessions (update_participants u P f s) = tbl_sessions s"
  "tbl_questions (update_participants u P f s) = tbl_questions s"
  "tbl_participants (update_participants u P f s) =
     map (\<lambda>r. if P r \<and> owns s u (p_meeting_id r) then f r else r) (tbl_participants s)"
  by (simp_all add: update_participants_def)

lemma update_sessions_tables:
  "tbl_meetings (update_sessions u P f s) = tbl_meetings s"
  "tbl_participants (update_sessions u P f s) = tbl_participants s"
  "tbl_questions (update_sessions u P f s) = tbl_questions s"
  "tbl_sessions (update_sessions u P f s) =
     map (\<lambda>r. if P r \<and> owns s u (meeting_id r) then f r else r) (tbl_sessions s)"
  by (simp_all add: update_sessions_def)

lemma owns_update_participants: "owns (update_participants u P f s) = owns s"
  by (rule owns_cong) (simp add: update_participants_tables)

lemma owns_update_sessions: "owns (update_sessions u P f s) = owns s"
  by (rule owns_cong) (simp add: update_sessions_tables)

lemma insert_session_Inr:
  "insert_session u row s = Inr s' \<longleftrightarrow>
     s_id row \<notin> s_id ` set (tbl_sessions s) \<and>
     participant_id row \<in> p_id ` set (tbl_participants s) \<and>
     owns s u (meeting_id row) \<and>
     s' = s\<lparr>tbl_sessions := tbl_sessions s @ [row]\<rparr>"
  by (auto simp: insert_session_def)

lemma update_sessions_none: "update_sessions u (\<lambda>r. False) f x = x"
  by (simp add: update_sessions_def)

lemma end_active_sessions_no_loss:
  assumes "lost e = []"
  shows "end_active_sessions e m s =
     update_sessions (auth_uid e)
       (\<lambda>r. s_id r \<in> s_id ` set (select_sessions (auth_uid e)
                                    (\<lambda>r. meeting_id r = m \<and> ended_at r = None) s))
       (\<lambda>r. r\<lparr>ended_at := Some (clock e)\<rparr>) s"
proof (cases "select_sessions (auth_uid e) (\<lambda>r. meeting_id r = m \<and> ended_at r = None) s")
  case Nil
  then show ?thesis
    using assms by (simp add: end_active_sessions_def update_sessions_none)
next
  case (Cons a list)
  then show ?thesis
    using assms by (simp add: end_active_sessions_def call_unchecked_def)
qed

lemma startSpeaking_no_loss:
  assumes ok: "lost e = []"
  shows "startSpeaking e participant meetingId t s =
     (let u = auth_uid e;
          s1 = update_participants u (\<lambda>r. p_meeting_id r = meetingId)
                    (\<lambda>r. r\<lparr>is_currently_speaking := False\<rparr>) s;
          s2 = end_active_sessions e meetingId s1;
          newSession = \<lparr>s_id = gen_id e 0, participant_id = p_id participant,
                        meeting_id = meetingId, started_at = db_clock e,
                        ended_at = None, duration = None\<rparr>
      in case insert_session u newSession s2 of
           Inl sessionError \<Rightarrow>
             (s2, t, Some (Destructive ''Error'' ''Failed to start speaking session''))
         | Inr s3 \<Rightarrow>
             (update_participants u (\<lambda>r. p_id r = p_id participant)
                   (\<lambda>r. r\<lparr>is_currently_speaking := True\<rparr>) s3,
              \<lparr>currentSessionTime = 0, activeSessionId = Some (gen_id e 0)\<rparr>,
              None))"
  using ok
  by (simp add: startSpeaking_def Let_def call_checked_def call_unchecked_def
      cong: sum.case_cong)

lemma end_active_sessions_tables:
  "tbl_meetings (end_active_sessions e m s) = tbl_meetings s"
  "tbl_participants (end_active_sessions e m s) = tbl_participants s"
  "tbl_questions (end_active_sessions e m s) = tbl_questions s"
  by (simp_all add: end_active_sessions_def call_unchecked_def update_sessions_tables Let_def)

lemma owns_end_active_sessions: "owns (end_active_sessions e m s) = owns s"
  by (rule owns_cong) (simp add: end_active_sessions_tables)

lemma end_active_sessions_ids:
  "map s_id (tbl_sessions (end_active_sessions e m s)) = map s_id (tbl_sessions s)"
  by (simp add: end_active_sessions_def call_unchecked_def update_sessions_tables Let_def
      comp_def)

lemma update_participants_ids:
  assumes "\<And>r. p_id (f r) = p_id r"
  shows "map p_id (tbl_participants (update_participants u P f s)) = map p_id (tbl_participants s)"
  by (simp add: update_participants_tables comp_def assms)

lemma startSpeaking_success:
  assumes ok: "lost e = []"
    and succ: "snd (snd (startSpeaking e participant meetingId t s)) = None"
  shows "owns s (auth_uid e) meetingId"
    and "gen_id e 0 \<notin> s_id ` set (tbl_sessions s)"
    and "p_id participant \<in> p_id ` set (tbl_participants s)"
proof -
  let ?s1 = "update_participants (auth_uid e) (\<lambda>r. p_meeting_id r = meetingId)
                    (\<lambda>r. r\<lparr>is_currently_speaking := False\<rparr>) s"
  let ?s2 = "end_active_sessions e meetingId ?s1"
  let ?new = "\<lparr>s_id = gen_id e 0, participant_id = p_id participant,
                        meeting_id = meetingId, started_at = db_clock e,
                        ended_at = None, duration = None\<rparr>"
  obtain s3 where ins: "insert_session (auth_uid e) ?new ?s2 = Inr s3"
    using succ by (simp add: startSpeaking_no_loss[OF ok] Let_def split: sum.splits)
  have ids: "s_id ` set (tbl_sessions ?s2) = s_id ` set (tbl_sessions s)"
    using end_active_sessions_ids[of e meetingId ?s1]
    by (metis list.set_map update_participants_tables(2))
  have pids: "p_id ` set (tbl_participants ?s2) = p_id ` set (tbl_participants s)"
    using update_participants_ids[of "\<lambda>r. r\<lparr>is_currently_speaking := False\<rparr>" "auth_uid e"
        "\<lambda>r. p_meeting_id r = meetingId" s]
    by (simp add: end_active_sessions_tables flip: set_map)
  from ins show "owns s (auth_uid e) meetingId"
    by (simp add: insert_session_Inr owns_end_active_sessions owns_update_participants)
  from ins ids show "gen_id e 0 \<notin> s_id ` set (tbl_sessions s)"
    by (simp add: insert_session_Inr)
  from ins pids show "p_id participant \<in> p_id ` set (tbl_participants s)"
    by (simp add: insert_session_Inr)
qed


lemma sole_by_key:
  assumes "distinct (map k xs)" and "x \<in> set xs"
  shows "filter (\<lambda>y. k y = k x) xs = [x]"
  using assms
proof (induction xs)
  case Nil
  then show ?case by simp
next
  case (Cons a xs)
  show ?case
  proof (cases "a = x")
    case True
    from Cons.prems True have "k x \<notin> k ` set xs" by simp
    then have "\<forall>y\<in>set xs. k y \<noteq> k x" by (auto simp: image_iff)
    then have "filter (\<lambda>y. k y = k x) xs = []" by (simp add: filter_empty_conv)
    with True show ?thesis by simp
  next
    case False
    with Cons.prems have "x \<in> set xs" "k a \<noteq> k x" by auto
    with Cons show ?thesis by simp
  qed
qed

lemma key_in_image_iff:
  assumes "distinct (map k xs)" and "x \<in> set xs"
  shows "k x \<in> k ` {y \<in> set xs. P y} \<longleftrightarrow> P x"
proof -
  have "inj_on k (set xs)" using assms(1) by (simp add: distinct_map)
  then show ?thesis using assms(2) by (auto dest: inj_onD)
qed

section \<open>What a completed \<open>startSpeaking\<close> leaves in the store\<close>

lemma startSpeaking_completed:
  assumes ok: "lost e = []"
    and succ: "snd (snd (startSpeaking e participant meetingId t s)) = None"
  shows "fst (startSpeaking e participant meetingId t s) =
     update_participants (auth_uid e) (\<lambda>r. p_id r = p_id participant)
       (\<lambda>r. r\<lparr>is_currently_speaking := True\<rparr>)
       ((end_active_sessions e meetingId
           (update_participants (auth_uid e) (\<lambda>r. p_meeting_id r = meetingId)
              (\<lambda>r. r\<lparr>is_currently_speaking := False\<rparr>) s))
        \<lparr>tbl_sessions :=
           tbl_sessions (end_active_sessions e meetingId
             (update_participants (auth_uid e) (\<lambda>r. p_meeting_id r = meetingId)
                (\<lambda>r. r\<lparr>is_currently_speaking := False\<rparr>) s))
           @ [\<lparr>s_id = gen_id e 0, participant_id = p_id participant, meeting_id = meetingId,
                started_at = db_clock e, ended_at = None, duration = None\<rparr>]\<rparr>)"
proof -
  let ?s2 = "end_active_sessions e meetingId
           (update_participants (auth_uid e) (\<lambda>r. p_meeting_id r = meetingId)
              (\<lambda>r. r\<lparr>is_currently_speaking := False\<rparr>) s)"
  let ?new = "\<lparr>s_id = gen_id e 0, participant_id = p_id participant, meeting_id = meetingId,
                started_at = db_clock e, ended_at = None, duration = None\<rparr>"
  obtain s3 where ins: "insert_session (auth_uid e) ?new ?s2 = Inr s3"
    using succ by (simp add: startSpeaking_no_loss[OF ok] Let_def split: sum.splits)
  then have "s3 = ?s2\<lparr>tbl_sessions := tbl_sessions ?s2 @ [?new]\<rparr>"
    by (simp add: insert_session_Inr)
  with ins show ?thesis
    by (simp add: startSpeaking_no_loss[OF ok] Let_def)
qed

lemma startSpeaking_participants:
  assumes ok: "lost e = []"
    and succ: "snd (snd (startSpeaking e participant meetingId t s)) = None"
  shows "tbl_participants (fst (startSpeaking e participant meetingId t s)) =
     map (\<lambda>r. if p_id r = p_id participant \<and> owns s (auth_uid e) (p_meeting_id r)
               then r\<lparr>is_currently_speaking := True\<rparr>
               else if p_meeting_id r = meetingId
                    then r\<lparr>is_currently_speaking := False\<rparr> else r)
       (tbl_participants s)"
proof -
  have own: "owns s (auth_uid e) meetingId"
    by (rule startSpeaking_success(1)[OF ok succ])
  have inner: "owns (x\<lparr>tbl_sessions := ys\<rparr>) = owns x" for x ys
    by (rule owns_cong) simp
  show ?thesis
    unfolding startSpeaking_completed[OF ok succ] update_participants_tables inner
      owns_end_active_sessions owns_update_participants
    by (simp add: end_active_sessions_tables update_participants_tables)
      (use own in auto)
qed

lemma startSpeaking_sessions:
  assumes ok: "lost e = []"
    and succ: "snd (snd (startSpeaking e participant meetingId t s)) = None"
    and pk: "distinct (map s_id (tbl_sessions s))"
  shows "tbl_sessions (fst (startSpeaking e participant meetingId t s)) =
           map (\<lambda>r. if meeting_id r = meetingId \<and> ended_at r = None
                     then r\<lparr>ended_at := Some (clock e)\<rparr> else r) (tbl_sessions s)
           @ [\<lparr>s_id = gen_id e 0, participant_id = p_id participant, meeting_id = meetingId,
                started_at = db_clock e, ended_at = None, duration = None\<rparr>]"
proof -
  let ?u = "auth_uid e"
  let ?s1 = "update_participants ?u (\<lambda>r. p_meeting_id r = meetingId)
                    (\<lambda>r. r\<lparr>is_currently_speaking := False\<rparr>) s"
  let ?s2 = "end_active_sessions e meetingId ?s1"
  have own: "owns s ?u meetingId"
    by (rule startSpeaking_success(1)[OF ok succ])
  have sel: "select_sessions ?u (\<lambda>r. meeting_id r = meetingId \<and> ended_at r = None) ?s1 =
      filter (\<lambda>r. meeting_id r = meetingId \<and> ended_at r = None) (tbl_sessions s)"
    unfolding select_sessions_def owns_update_participants update_participants_tables
    by (rule filter_cong) (use own in auto)
  have "tbl_sessions ?s2 =
      map (\<lambda>r. if s_id r \<in> s_id ` {x \<in> set (tbl_sessions s).
                                     meeting_id x = meetingId \<and> ended_at x = None}
                   \<and> owns s ?u (meeting_id r)
                then r\<lparr>ended_at := Some (clock e)\<rparr> else r) (tbl_sessions s)"
    unfolding end_active_sessions_no_loss[OF ok] sel
    by (simp add: update_sessions_tables owns_update_participants update_participants_tables)
  also have "\<dots> = map (\<lambda>r. if meeting_id r = meetingId \<and> ended_at r = None
                     then r\<lparr>ended_at := Some (clock e)\<rparr> else r) (tbl_sessions s)"
    by (rule map_cong) (use own in \<open>auto simp: key_in_image_iff[OF pk]\<close>)
  finally show ?thesis
    unfolding startSpeaking_completed[OF ok succ]
    by (simp add: update_participants_tables)
qed

lemmas demo_defs = alice_def bob_def standup_def store0_def store1_def store2_def user7_def
  timer_init_def alice_speaking_def timer5_def

lemmas op_defs = startSpeaking_def stopSpeaking_def end_active_sessions_def
  call_checked_def call_unchecked_def insert_session_def update_participants_def
  update_sessions_def select_sessions_def owns_def Let_def

text \<open>
  Claim C1. When \<open>startSpeaking\<close> runs to the end with no call failing, for a participant
  whose row is in the meeting, the participants of that meeting marked as speaking are
  exactly one, and it is that participant. The participants' ids are a primary key.
\<close>

theorem startSpeaking_sole_speaker:
  assumes pk: "distinct (map p_id (tbl_participants s))"
    and mem: "\<exists>r \<in> set (tbl_participants s). p_id r = p_id participant \<and> p_meeting_id r = meetingId"
    and ok: "lost e = []"
    and succ: "snd (snd (startSpeaking e participant meetingId t s)) = None"
  shows "map p_id (filter (\<lambda>r. p_meeting_id r = meetingId \<and> is_currently_speaking r)
           (tbl_participants (fst (startSpeaking e participant meetingId t s)))) = [p_id participant]"
proof -
  let ?u = "auth_uid e"
  have own: "owns s ?u meetingId"
    by (rule startSpeaking_success(1)[OF ok succ])
  obtain x where x: "x \<in> set (tbl_participants s)" "p_id x = p_id participant"
      "p_meeting_id x = meetingId"
    using mem by blast
  have only: "filter (\<lambda>r. p_id r = p_id participant) (tbl_participants s) = [x]"
    using sole_by_key[OF pk x(1)] x(2) by simp
  define g :: "participant \<Rightarrow> participant" where
    "g = (\<lambda>r. if p_id r = p_id participant \<and> owns s ?u (p_meeting_id r)
              then r\<lparr>is_currently_speaking := True\<rparr>
              else if p_meeting_id r = meetingId
                   then r\<lparr>is_currently_speaking := False\<rparr> else r)"
  have tbl: "tbl_participants (fst (startSpeaking e participant meetingId t s)) =
      map g (tbl_participants s)"
    unfolding g_def by (rule startSpeaking_participants[OF ok succ])
  have gid: "p_id (g r) = p_id r" for r
    by (simp add: g_def)
  have eq: "(p_meeting_id (g r) = meetingId \<and> is_currently_speaking (g r))
        \<longleftrightarrow> p_id r = p_id participant" if r: "r \<in> set (tbl_participants s)" for r
  proof -
    have "r = x" if "p_id r = p_id participant"
    proof -
      from that r have "r \<in> set (filter (\<lambda>r. p_id r = p_id participant) (tbl_participants s))"
        by simp
      then show ?thesis unfolding only by simp
    qed
    then show ?thesis
      using x own by (auto simp: g_def)
  qed
  have "filter (\<lambda>r. p_meeting_id r = meetingId \<and> is_currently_speaking r)
           (map g (tbl_participants s)) =
        map g (filter (\<lambda>r. p_id r = p_id participant) (tbl_participants s))"
    unfolding filter_map comp_def
    using eq by (simp cong: filter_cong)
  then show ?thesis
    unfolding tbl only by (simp add: gid x(2))
qed

theorem startSpeaking_sole_speaker_witness:
  "distinct (map p_id (tbl_participants store0)) \<and>
   (\<exists>r \<in> set (tbl_participants store0). p_id r = p_id alice \<and> p_meeting_id r = 1) \<and>
   lost (user7 100 50) = [] \<and>
   snd (snd (startSpeaking (user7 100 50) alice 1 timer_init store0)) = None \<and>
   map p_id (filter (\<lambda>r. p_meeting_id r = 1 \<and> is_currently_speaking r)
     (tbl_participants (fst (startSpeaking (user7 100 50) alice 1 timer_init store0)))) = [10]"
proof -
  have h1: "distinct (map p_id (tbl_participants store0))"
    by (simp add: demo_defs)
  have h2: "\<exists>r \<in> set (tbl_participants store0). p_id r = p_id alice \<and> p_meeting_id r = 1"
    by (simp add: demo_defs)
  have h3: "lost (user7 100 50) = []"
    by (simp add: demo_defs)
  have h4: "snd (snd (startSpeaking (user7 100 50) alice 1 timer_init store0)) = None"
    by (simp add: demo_defs op_defs)
  show ?thesis
    using h1 h2 h3 h4 startSpeaking_sole_speaker[OF h1 h2 h3 h4]
    by (simp add: alice_def)
qed

text \<open>
  Claim C3. A completed \<open>startSpeaking\<close> with no call failing closes the meeting's open
  session rows by stamping \<open>ended_at\<close> and nothing else: their \<open>duration\<close> and every
  other row of the ledger stay as they were, the new row is appended, and no participant's
  \<open>total_speaking_time\<close> or \<open>speaking_sessions\<close> changes. The sessions' ids are a primary
  key.
\<close>

theorem startSpeaking_cleanup_stamps_only:
  assumes ok: "lost e = []"
    and succ: "snd (snd (startSpeaking e participant meetingId t s)) = None"
    and pk: "distinct (map s_id (tbl_sessions s))"
  shows "tbl_sessions (fst (startSpeaking e participant meetingId t s)) =
           map (\<lambda>r. if meeting_id r = meetingId \<and> ended_at r = None
                     then r\<lparr>ended_at := Some (clock e)\<rparr> else r) (tbl_sessions s)
           @ [\<lparr>s_id = gen_id e 0, participant_id = p_id participant, meeting_id = meetingId,
                started_at = db_clock e, ended_at = None, duration = None\<rparr>]
         \<and> map total_speaking_time (tbl_participants (fst (startSpeaking e participant meetingId t s)))
             = map total_speaking_time (tbl_participants s)
         \<and> map speaking_sessions (tbl_participants (fst (startSpeaking e participant meetingId t s)))
             = map speaking_sessions (tbl_participants s)
         \<and> map p_id (tbl_participants (fst (startSpeaking e participant meetingId t s)))
             = map p_id (tbl_participants s)"
  unfolding startSpeaking_participants[OF ok succ] startSpeaking_sessions[OF ok succ pk]
  by (simp add: comp_def)

theorem startSpeaking_cleanup_stamps_only_witness:
  "lost (user7 105 51) = [] \<and>
   snd (snd (startSpeaking (user7 105 51) bob 1 timer_init store1)) = None \<and>
   distinct (map s_id (tbl_sessions store1)) \<and>
   tbl_sessions (fst (startSpeaking (user7 105 51) bob 1 timer_init store1)) =
     [\<lparr>s_id = 50, participant_id = 10, meeting_id = 1, started_at = 100,
       ended_at = Some 105, duration = None\<rparr>,
      \<lparr>s_id = 51, participant_id = 11, meeting_id = 1, started_at = 105,
       ended_at = None, duration = None\<rparr>] \<and>
   map total_speaking_time
     (tbl_participants (fst (startSpeaking (user7 105 51) bob 1 timer_init store1))) = [0, 0]"
proof -
  have h1: "lost (user7 105 51) = []"
    by (simp add: demo_defs)
  have h2: "snd (snd (startSpeaking (user7 105 51) bob 1 timer_init store1)) = None"
    by (simp add: demo_defs op_defs)
  have h3: "distinct (map s_id (tbl_sessions store1))"
    by (simp add: demo_defs)
  show ?thesis
    using h1 h2 h3 startSpeaking_cleanup_stamps_only[OF h1 h2 h3]
    by (simp add: demo_defs)
qed

section \<open>What \<open>stopSpeaking\<close> leaves in the store\<close>

lemma stopSpeaking_no_loss:
  assumes ok: "lost e = []"
  shows "stopSpeaking e participant t s =
     (update_participants (auth_uid e) (\<lambda>r. p_id r = p_id participant)
        (\<lambda>r. r\<lparr>is_currently_speaking := False,
                total_speaking_time := total_speaking_time participant + currentSessionTime t,
                speaking_sessions := speaking_sessions participant + 1\<rparr>)
        (case activeSessionId t of
           None \<Rightarrow> s
         | Some sid \<Rightarrow>
             update_sessions (auth_uid e) (\<lambda>r. s_id r = sid)
               (\<lambda>r. r\<lparr>ended_at := Some (clock e),
                       duration := Some (currentSessionTime t)\<rparr>) s),
      \<lparr>currentSessionTime = 0, activeSessionId = None\<rparr>, None)"
  using ok
  by (simp add: stopSpeaking_def Let_def call_unchecked_def cong: option.case_cong)

lemma stopSpeaking_sessions:
  assumes ok: "lost e = []"
  shows "tbl_sessions (fst (stopSpeaking e participant t s)) =
     (case activeSessionId t of
        None \<Rightarrow> tbl_sessions s
      | Some sid \<Rightarrow>
          map (\<lambda>r. if s_id r = sid \<and> owns s (auth_uid e) (meeting_id r)
                    then r\<lparr>ended_at := Some (clock e),
                           duration := Some (currentSessionTime t)\<rparr>
                    else r) (tbl_sessions s))"
  unfolding stopSpeaking_no_loss[OF ok] fst_conv
  by (simp add: update_participants_tables update_sessions_tables split: option.split)

text \<open>The participants after a stop, in any environment: the values come from the prop.\<close>

lemma stopSpeaking_participants_any:
  "tbl_participants (fst (stopSpeaking e participant t s)) =
     map (\<lambda>r. if UpdateStats \<notin> set (lost e) \<and> p_id r = p_id participant
                  \<and> owns s (auth_uid e) (p_meeting_id r)
               then r\<lparr>is_currently_speaking := False,
                      total_speaking_time := total_speaking_time participant + currentSessionTime t,
                      speaking_sessions := speaking_sessions participant + 1\<rparr>
               else r) (tbl_participants s)"
proof -
  let ?s1 = "case activeSessionId t of
                  None \<Rightarrow> s
                | Some sid \<Rightarrow>
                    call_unchecked e CloseSession
                      (update_sessions (auth_uid e) (\<lambda>r. s_id r = sid)
                         (\<lambda>r. r\<lparr>ended_at := Some (clock e),
                                 duration := Some (currentSessionTime t)\<rparr>)) s"
  have s1: "tbl_participants ?s1 = tbl_participants s" "owns ?s1 = owns s"
    by (simp_all add: call_unchecked_def update_sessions_tables owns_update_sessions
        split: option.split)
  show ?thesis
    by (simp add: stopSpeaking_def Let_def call_unchecked_def update_participants_tables s1)
qed

lemma stopSpeaking_written:
  assumes ok: "lost e = []"
    and own: "\<forall>r \<in> set (tbl_participants s). p_id r = p_id participant \<longrightarrow>
                owns s (auth_uid e) (p_meeting_id r)"
  shows "tbl_participants (fst (stopSpeaking e participant t s)) =
     map (\<lambda>r. if p_id r = p_id participant
               then r\<lparr>is_currently_speaking := False,
                      total_speaking_time := total_speaking_time participant + currentSessionTime t,
                      speaking_sessions := speaking_sessions participant + 1\<rparr>
               else r) (tbl_participants s)"
  unfolding stopSpeaking_participants_any
  by (rule map_cong) (use ok own in auto)

lemma stopSpeaking_added:
  assumes ok: "lost e = []"
    and own: "\<forall>r \<in> set (tbl_participants s). p_id r = p_id participant \<longrightarrow>
                owns s (auth_uid e) (p_meeting_id r)"
    and cur: "current participant s"
  shows "tbl_participants (fst (stopSpeaking e participant t s)) =
     map (\<lambda>r. if p_id r = p_id participant
               then r\<lparr>is_currently_speaking := False,
                      total_speaking_time := total_speaking_time r + currentSessionTime t,
                      speaking_sessions := speaking_sessions r + 1\<rparr>
               else r) (tbl_participants s)"
  unfolding stopSpeaking_written[OF ok own]
  by (rule map_cong) (use cur in \<open>auto simp: current_def\<close>)

text \<open>
  Claim C4. When the card's counter holds \<open>n\<close> ticked seconds and its session id is
  \<open>sid\<close>, a \<open>stopSpeaking\<close> with no call failing writes \<open>duration = n\<close> (the counter, no
  difference of timestamps) and the end stamp on the session \<open>sid\<close>, and sets the
  participant's row to \<open>total_speaking_time + n\<close> and \<open>speaking_sessions + 1\<close>, where the
  two values added to are the ones the card knows, those of its \<open>participant\<close> prop. Where
  the prop carries the stored totals, the stored total has grown by exactly \<open>n\<close> and the
  stored count by one. The caller owns the meeting of the rows the two updates address.
\<close>

theorem stopSpeaking_credits_ticks:
  assumes ok: "lost e = []"
    and held: "activeSessionId t = Some sid"
    and n: "currentSessionTime t = n"
    and own_p: "\<forall>r \<in> set (tbl_participants s). p_id r = p_id participant \<longrightarrow>
                  owns s (auth_uid e) (p_meeting_id r)"
    and own_s: "\<forall>r \<in> set (tbl_sessions s). s_id r = sid \<longrightarrow> owns s (auth_uid e) (meeting_id r)"
  shows "tbl_sessions (fst (stopSpeaking e participant t s)) =
           map (\<lambda>r. if s_id r = sid
                     then r\<lparr>ended_at := Some (clock e), duration := Some n\<rparr> else r)
             (tbl_sessions s)
         \<and> tbl_participants (fst (stopSpeaking e participant t s)) =
           map (\<lambda>r. if p_id r = p_id participant
                     then r\<lparr>is_currently_speaking := False,
                            total_speaking_time := total_speaking_time participant + n,
                            speaking_sessions := speaking_sessions participant + 1\<rparr>
                     else r) (tbl_participants s)
         \<and> (current participant s \<longrightarrow>
             tbl_participants (fst (stopSpeaking e participant t s)) =
               map (\<lambda>r. if p_id r = p_id participant
                         then r\<lparr>is_currently_speaking := False,
                                total_speaking_time := total_speaking_time r + n,
                                speaking_sessions := speaking_sessions r + 1\<rparr>
                         else r) (tbl_participants s))"
proof -
  have "tbl_sessions (fst (stopSpeaking e participant t s)) =
      map (\<lambda>r. if s_id r = sid \<and> owns s (auth_uid e) (meeting_id r)
                then r\<lparr>ended_at := Some (clock e), duration := Some n\<rparr> else r)
        (tbl_sessions s)"
    unfolding stopSpeaking_sessions[OF ok] by (simp add: held n)
  also have "\<dots> = map (\<lambda>r. if s_id r = sid
                     then r\<lparr>ended_at := Some (clock e), duration := Some n\<rparr> else r)
             (tbl_sessions s)"
    by (rule map_cong) (use own_s in auto)
  finally show ?thesis
    using stopSpeaking_written[OF ok own_p, of t] stopSpeaking_added[OF ok own_p, of t] n
    by simp
qed

text \<open>Scenario A: Alice starts at 100, her card ticks five times, she stops at 105.\<close>

lemma scenario_A_start:
  "startSpeaking (user7 100 50) alice 1 timer_init store0 =
     (store1, \<lparr>currentSessionTime = 0, activeSessionId = Some 50\<rparr>, None)"
  by (simp add: demo_defs op_defs)

lemma scenario_A_ticks:
  "tick alice_speaking (tick alice_speaking (tick alice_speaking (tick alice_speaking
     (tick alice_speaking \<lparr>currentSessionTime = 0, activeSessionId = Some 50\<rparr>)))) = timer5"
  by (simp add: tick_def demo_defs)


theorem stopSpeaking_credits_ticks_witness:
  "lost (user7 105 51) = [] \<and> activeSessionId timer5 = Some 50 \<and>
   currentSessionTime timer5 = 5 \<and>
   map (\<lambda>r. owns store1 (auth_uid (user7 105 51)) (p_meeting_id r))
     (filter (\<lambda>r. p_id r = p_id alice_speaking) (tbl_participants store1)) = [True] \<and>
   map (\<lambda>r. owns store1 (auth_uid (user7 105 51)) (meeting_id r))
     (filter (\<lambda>r. s_id r = 50) (tbl_sessions store1)) = [True] \<and>
   current alice_speaking store1 \<and>
   tbl_sessions (fst (stopSpeaking (user7 105 51) alice_speaking timer5 store1)) =
     [\<lparr>s_id = 50, participant_id = 10, meeting_id = 1, started_at = 100,
       ended_at = Some 105, duration = Some 5\<rparr>] \<and>
   tbl_participants (fst (stopSpeaking (user7 105 51) alice_speaking timer5 store1)) =
     [alice\<lparr>total_speaking_time := 5, speaking_sessions := 1\<rparr>, bob]"
proof -
  have h1: "lost (user7 105 51) = []"
    by (simp add: demo_defs)
  have h2: "activeSessionId timer5 = Some 50" and h3: "currentSessionTime timer5 = 5"
    by (simp_all add: demo_defs)
  have h4: "\<forall>r \<in> set (tbl_participants store1). p_id r = p_id alice_speaking \<longrightarrow>
      owns store1 (auth_uid (user7 105 51)) (p_meeting_id r)"
    by (simp add: demo_defs owns_def)
  have h5: "\<forall>r \<in> set (tbl_sessions store1). s_id r = 50 \<longrightarrow>
      owns store1 (auth_uid (user7 105 51)) (meeting_id r)"
    by (simp add: demo_defs owns_def)
  have h6: "current alice_speaking store1"
    by (simp add: demo_defs current_def)
  have shown: "map (\<lambda>r. owns store1 (auth_uid (user7 105 51)) (p_meeting_id r))
     (filter (\<lambda>r. p_id r = p_id alice_speaking) (tbl_participants store1)) = [True]"
    "map (\<lambda>r. owns store1 (auth_uid (user7 105 51)) (meeting_id r))
     (filter (\<lambda>r. s_id r = 50) (tbl_sessions store1)) = [True]"
    by (simp_all add: demo_defs owns_def)
  show ?thesis
    using h1 h2 h3 h6 shown stopSpeaking_credits_ticks[OF h1 h2 h3 h4 h5]
    by (simp add: demo_defs)
qed

text \<open>
  Claim C10, amended. When the card holds no session id, a \<open>stopSpeaking\<close> with no call
  failing leaves the ledger as it is, and still writes the participant's row: the speaking
  mark is cleared, \<open>total_speaking_time\<close> is set to the prop's total plus the counter and
  \<open>speaking_sessions\<close> to the prop's count plus one. Where the prop carries the stored
  totals, that is the stored total grown by the counter and the stored count grown by one.
  The caller owns the meeting of the participant's row.
\<close>

theorem stopSpeaking_without_session_id:
  assumes ok: "lost e = []"
    and held: "activeSessionId t = None"
    and own_p: "\<forall>r \<in> set (tbl_participants s). p_id r = p_id participant \<longrightarrow>
                  owns s (auth_uid e) (p_meeting_id r)"
  shows "tbl_sessions (fst (stopSpeaking e participant t s)) = tbl_sessions s
         \<and> tbl_participants (fst (stopSpeaking e participant t s)) =
           map (\<lambda>r. if p_id r = p_id participant
                     then r\<lparr>is_currently_speaking := False,
                            total_speaking_time :=
                              total_speaking_time participant + currentSessionTime t,
                            speaking_sessions := speaking_sessions participant + 1\<rparr>
                     else r) (tbl_participants s)
         \<and> (current participant s \<longrightarrow>
             tbl_participants (fst (stopSpeaking e participant t s)) =
               map (\<lambda>r. if p_id r = p_id participant
                         then r\<lparr>is_currently_speaking := False,
                                total_speaking_time := total_speaking_time r + currentSessionTime t,
                                speaking_sessions := speaking_sessions r + 1\<rparr>
                         else r) (tbl_participants s))"
  unfolding stopSpeaking_sessions[OF ok]
  using stopSpeaking_written[OF ok own_p, of t] stopSpeaking_added[OF ok own_p, of t]
  by (simp add: held)

theorem stopSpeaking_without_session_id_witness:
  "lost (user7 105 51) = [] \<and>
   activeSessionId \<lparr>currentSessionTime = 3, activeSessionId = None\<rparr> = None \<and>
   map (\<lambda>r. owns store1 (auth_uid (user7 105 51)) (p_meeting_id r))
     (filter (\<lambda>r. p_id r = p_id alice_speaking) (tbl_participants store1)) = [True] \<and>
   current alice_speaking store1 \<and>
   tbl_sessions (fst (stopSpeaking (user7 105 51) alice_speaking
       \<lparr>currentSessionTime = 3, activeSessionId = None\<rparr> store1)) = tbl_sessions store1 \<and>
   tbl_participants (fst (stopSpeaking (user7 105 51) alice_speaking
       \<lparr>currentSessionTime = 3, activeSessionId = None\<rparr> store1)) =
     [alice\<lparr>total_speaking_time := 3, speaking_sessions := 1\<rparr>, bob]"
proof -
  have h1: "lost (user7 105 51) = []"
    by (simp add: demo_defs)
  have h2: "activeSessionId \<lparr>currentSessionTime = 3, activeSessionId = None\<rparr> = None"
    by simp
  have h3: "\<forall>r \<in> set (tbl_participants store1). p_id r = p_id alice_speaking \<longrightarrow>
      owns store1 (auth_uid (user7 105 51)) (p_meeting_id r)"
    by (simp add: demo_defs owns_def)
  have h4: "current alice_speaking store1"
    by (simp add: demo_defs current_def)
  have shown: "map (\<lambda>r. owns store1 (auth_uid (user7 105 51)) (p_meeting_id r))
     (filter (\<lambda>r. p_id r = p_id alice_speaking) (tbl_participants store1)) = [True]"
    by (simp add: demo_defs owns_def)
  show ?thesis
    using h1 h4 shown stopSpeaking_without_session_id[OF h1 h2 h3]
    by (simp add: demo_defs)
qed

text \<open>
  Claim C10 as stated fails when the card is pressed again before the fetch that follows
  a stop is in: the card holds no session id, its counter is zero and its prop is the row
  of before the stop. The stored total goes from 5 back to 0, where an increase by the
  counter would leave it at 5, and the stored count stays at 1.
\<close>

theorem stopSpeaking_twice_counterexample:
  "lost (user7 106 52) = [] \<and>
   stopSpeaking (user7 105 51) alice_speaking timer5 store1 =
     (store2, \<lparr>currentSessionTime = 0, activeSessionId = None\<rparr>, None) \<and>
   aggregates store2 = [(10, 5, 1), (11, 0, 0)] \<and>
   tbl_sessions (fst (stopSpeaking (user7 106 52) alice_speaking
       \<lparr>currentSessionTime = 0, activeSessionId = None\<rparr> store2)) = tbl_sessions store2 \<and>
   aggregates (fst (stopSpeaking (user7 106 52) alice_speaking
       \<lparr>currentSessionTime = 0, activeSessionId = None\<rparr> store2)) = [(10, 0, 1), (11, 0, 0)]"
  by (simp add: demo_defs op_defs aggregates_def)

section \<open>The ledger's invariants are kept\<close>

lemma open_is_latest_map:
  assumes inv: "open_is_latest ss"
    and pid: "\<And>r. participant_id (f r) = participant_id r"
    and still: "\<And>r. ended_at (f r) = None \<Longrightarrow> f r = r"
  shows "open_is_latest (map f ss)"
  unfolding open_is_latest_def
proof (intro ballI impI)
  fix r' assume r': "r' \<in> set (map f ss)" and op: "ended_at r' = None"
  then obtain r where r: "r \<in> set ss" "r' = f r" by auto
  with op still have same: "f r = r" by simp
  with op r have "ended_at r = None" by simp
  with inv r(1) have latest: "last (filter (\<lambda>x. participant_id x = participant_id r) ss) = r"
    by (simp add: open_is_latest_def)
  have ne: "filter (\<lambda>x. participant_id x = participant_id r) ss \<noteq> []"
    using r(1) by (auto simp: filter_empty_conv)
  have "filter (\<lambda>x. participant_id x = participant_id r') (map f ss) =
      map f (filter (\<lambda>x. participant_id x = participant_id r) ss)"
    using r(2) same by (simp add: filter_map comp_def pid)
  then show "last (filter (\<lambda>x. participant_id x = participant_id r') (map f ss)) = r'"
    using ne latest same r(2) by (simp add: last_map)
qed

lemma open_is_latest_snoc:
  assumes inv: "open_is_latest ss"
    and other: "\<forall>r \<in> set ss. ended_at r = None \<longrightarrow> participant_id r \<noteq> participant_id new"
  shows "open_is_latest (ss @ [new])"
  unfolding open_is_latest_def
proof (intro ballI impI)
  fix r assume r: "r \<in> set (ss @ [new])" and op: "ended_at r = None"
  show "last (filter (\<lambda>x. participant_id x = participant_id r) (ss @ [new])) = r"
  proof (cases "r = new")
    case True
    then show ?thesis by simp
  next
    case False
    with r have mem: "r \<in> set ss" by simp
    with other op have "participant_id r \<noteq> participant_id new" by blast
    then have "filter (\<lambda>x. participant_id x = participant_id r) (ss @ [new]) =
        filter (\<lambda>x. participant_id x = participant_id r) ss"
      by auto
    with inv mem op show ?thesis by (simp add: open_is_latest_def)
  qed
qed

lemma ledger_ok_store0: "ledger_ok store0"
  by (simp add: ledger_ok_def open_is_latest_def demo_defs)

lemma ledger_ok_maps:
  assumes inv: "ledger_ok s"
    and ss: "tbl_sessions s' = map f (tbl_sessions s)"
    and ps: "tbl_participants s' = map g (tbl_participants s)"
    and f: "\<And>r. s_id (f r) = s_id r" "\<And>r. participant_id (f r) = participant_id r"
      "\<And>r. meeting_id (f r) = meeting_id r" "\<And>r. ended_at (f r) = None \<Longrightarrow> f r = r"
    and g: "\<And>r. p_id (g r) = p_id r" "\<And>r. p_meeting_id (g r) = p_meeting_id r"
  shows "ledger_ok s'"
proof -
  have d1: "distinct (map s_id (tbl_sessions s'))"
    using inv by (simp add: ss f(1) comp_def ledger_ok_def)
  have d2: "distinct (map p_id (tbl_participants s'))"
    using inv by (simp add: ps g(1) comp_def ledger_ok_def)
  have link: "\<forall>r \<in> set (tbl_sessions s'). \<exists>q \<in> set (tbl_participants s').
          p_id q = participant_id r \<and> p_meeting_id q = meeting_id r"
  proof
    fix r' assume "r' \<in> set (tbl_sessions s')"
    then obtain r where r: "r \<in> set (tbl_sessions s)" "r' = f r"
      unfolding ss by auto
    with inv obtain q where q: "q \<in> set (tbl_participants s)" "p_id q = participant_id r"
        "p_meeting_id q = meeting_id r"
      unfolding ledger_ok_def by blast
    then have "g q \<in> set (tbl_participants s')" unfolding ps by simp
    moreover have "p_id (g q) = participant_id r' \<and> p_meeting_id (g q) = meeting_id r'"
      using q r(2) by (simp add: g f)
    ultimately show "\<exists>q \<in> set (tbl_participants s').
          p_id q = participant_id r' \<and> p_meeting_id q = meeting_id r'" by blast
  qed
  have latest: "open_is_latest (tbl_sessions s')"
    unfolding ss using inv f(2,4) by (intro open_is_latest_map) (simp_all add: ledger_ok_def)
  show ?thesis
    unfolding ledger_ok_def using d1 d2 link latest by blast
qed

lemma ledger_ok_stopSpeaking:
  assumes inv: "ledger_ok s" and ok: "lost e = []"
  shows "ledger_ok (fst (stopSpeaking e participant t s))"
proof (rule ledger_ok_maps[OF inv])
  show "tbl_sessions (fst (stopSpeaking e participant t s)) =
      map (\<lambda>r. if (\<exists>sid. activeSessionId t = Some sid \<and> s_id r = sid)
                   \<and> owns s (auth_uid e) (meeting_id r)
                then r\<lparr>ended_at := Some (clock e), duration := Some (currentSessionTime t)\<rparr>
                else r) (tbl_sessions s)"
    unfolding stopSpeaking_sessions[OF ok] by (simp split: option.split)
  show "tbl_participants (fst (stopSpeaking e participant t s)) =
      map (\<lambda>r. if p_id r = p_id participant \<and> owns s (auth_uid e) (p_meeting_id r)
        then r\<lparr>is_currently_speaking := False,
                total_speaking_time := total_speaking_time participant + currentSessionTime t,
                speaking_sessions := speaking_sessions participant + 1\<rparr> else r) (tbl_participants s)"
    unfolding stopSpeaking_no_loss[OF ok] fst_conv update_participants_tables
    by (simp add: owns_update_sessions update_sessions_tables split: option.split)
qed (auto split: if_splits)

lemma ledger_ok_startSpeaking:
  assumes inv: "ledger_ok s" and ok: "lost e = []"
    and succ: "snd (snd (startSpeaking e participant meetingId t s)) = None"
    and mem: "\<exists>q \<in> set (tbl_participants s). p_id q = p_id participant \<and> p_meeting_id q = meetingId"
  shows "ledger_ok (fst (startSpeaking e participant meetingId t s))"
proof -
  let ?s' = "fst (startSpeaking e participant meetingId t s)"
  let ?ss = "tbl_sessions s" and ?ps = "tbl_participants s"
  define close :: "speaking_session \<Rightarrow> speaking_session" where
    "close = (\<lambda>r. if meeting_id r = meetingId \<and> ended_at r = None
                  then r\<lparr>ended_at := Some (clock e)\<rparr> else r)"
  define new :: speaking_session where
    "new = \<lparr>s_id = gen_id e 0, participant_id = p_id participant, meeting_id = meetingId,
             started_at = db_clock e, ended_at = None, duration = None\<rparr>"
  define g :: "participant \<Rightarrow> participant" where
    "g = (\<lambda>r. if p_id r = p_id participant \<and> owns s (auth_uid e) (p_meeting_id r)
              then r\<lparr>is_currently_speaking := True\<rparr>
              else if p_meeting_id r = meetingId
                   then r\<lparr>is_currently_speaking := False\<rparr> else r)"
  from inv have pks: "distinct (map s_id ?ss)" and pkp: "distinct (map p_id ?ps)"
    and link: "\<forall>r \<in> set ?ss. \<exists>q \<in> set ?ps. p_id q = participant_id r \<and> p_meeting_id q = meeting_id r"
    and latest: "open_is_latest ?ss"
    by (simp_all add: ledger_ok_def)
  have sess: "tbl_sessions ?s' = map close ?ss @ [new]"
    unfolding close_def new_def by (rule startSpeaking_sessions[OF ok succ pks])
  have parts: "tbl_participants ?s' = map g ?ps"
    unfolding g_def by (rule startSpeaking_participants[OF ok succ])
  have fresh: "gen_id e 0 \<notin> s_id ` set ?ss"
    by (rule startSpeaking_success(2)[OF ok succ])
  have cl: "s_id (close r) = s_id r" "participant_id (close r) = participant_id r"
      "meeting_id (close r) = meeting_id r" for r
    by (simp_all add: close_def)
  have gp: "p_id (g r) = p_id r" "p_meeting_id (g r) = p_meeting_id r" for r
    by (simp_all add: g_def)
  obtain q where q: "q \<in> set ?ps" "p_id q = p_id participant" "p_meeting_id q = meetingId"
    using mem by blast
  have d1: "distinct (map s_id (tbl_sessions ?s'))"
    unfolding sess using pks fresh by (simp add: comp_def cl new_def)
  have d2: "distinct (map p_id (tbl_participants ?s'))"
    unfolding parts using pkp by (simp add: comp_def gp)
  have l3: "\<forall>r \<in> set (tbl_sessions ?s'). \<exists>q \<in> set (tbl_participants ?s').
          p_id q = participant_id r \<and> p_meeting_id q = meeting_id r"
  proof
    fix r' assume "r' \<in> set (tbl_sessions ?s')"
    then consider "r' = new" | r where "r \<in> set ?ss" "r' = close r"
      unfolding sess by auto
    then show "\<exists>q \<in> set (tbl_participants ?s').
          p_id q = participant_id r' \<and> p_meeting_id q = meeting_id r'"
    proof cases
      case 1
      have "g q \<in> set (tbl_participants ?s')" unfolding parts using q(1) by simp
      moreover have "p_id (g q) = participant_id r' \<and> p_meeting_id (g q) = meeting_id r'"
        using q 1 by (simp add: gp new_def)
      ultimately show ?thesis by blast
    next
      case 2
      with link obtain q' where q': "q' \<in> set ?ps" "p_id q' = participant_id r"
          "p_meeting_id q' = meeting_id r" by blast
      have "g q' \<in> set (tbl_participants ?s')" unfolding parts using q'(1) by simp
      moreover have "p_id (g q') = participant_id r' \<and> p_meeting_id (g q') = meeting_id r'"
        using q' 2 by (simp add: gp cl)
      ultimately show ?thesis by blast
    qed
  qed
  have closed: "open_is_latest (map close ?ss)"
    using latest by (rule open_is_latest_map) (auto simp: close_def split: if_splits)
  have other: "\<forall>r' \<in> set (map close ?ss). ended_at r' = None \<longrightarrow>
      participant_id r' \<noteq> participant_id new"
  proof (intro ballI impI)
    fix r' assume "r' \<in> set (map close ?ss)" and op: "ended_at r' = None"
    then obtain r where r: "r \<in> set ?ss" "r' = close r" by auto
    with op have elsewhere: "meeting_id r \<noteq> meetingId"
      by (auto simp: close_def split: if_splits)
    from link r(1) obtain q' where q': "q' \<in> set ?ps" "p_id q' = participant_id r"
        "p_meeting_id q' = meeting_id r" by blast
    show "participant_id r' \<noteq> participant_id new"
    proof
      assume "participant_id r' = participant_id new"
      then have "p_id q' = p_id q" using q' q(2) r(2) by (simp add: cl new_def)
      moreover have "inj_on p_id (set ?ps)" using pkp by (simp add: distinct_map)
      ultimately have "q' = q" using q'(1) q(1) by (auto dest: inj_onD)
      with q' q elsewhere show False by simp
    qed
  qed
  have l4: "open_is_latest (tbl_sessions ?s')"
    unfolding sess using closed other by (rule open_is_latest_snoc)
  show ?thesis
    unfolding ledger_ok_def using d1 d2 l3 l4 by blast
qed

text \<open>
  Claim C2. When the card holds the id of an open session of the participant, after a
  \<open>stopSpeaking\<close> with no call failing the participant's most recently opened session
  (the last of its rows) has \<open>ended_at\<close> and \<open>duration\<close> set, and none of the
  participant's sessions is open. The store is one the timer's operations produce: session
  ids are a primary key and only a participant's latest session can be open, which every
  run of the cards' view keeps true (\<open>run_ledger_ok\<close> below). The caller owns the
  session's meeting.
\<close>

theorem stopSpeaking_closes_ledger:
  assumes ok: "lost e = []"
    and held: "activeSessionId t = Some sid"
    and x: "x \<in> set (tbl_sessions s)" "s_id x = sid"
      "participant_id x = p_id participant" "ended_at x = None"
    and own: "owns s (auth_uid e) (meeting_id x)"
    and pk: "distinct (map s_id (tbl_sessions s))"
    and inv: "open_is_latest (tbl_sessions s)"
  shows "ended_at (last (filter (\<lambda>r. participant_id r = p_id participant)
                    (tbl_sessions (fst (stopSpeaking e participant t s))))) \<noteq> None
         \<and> duration (last (filter (\<lambda>r. participant_id r = p_id participant)
                    (tbl_sessions (fst (stopSpeaking e participant t s))))) \<noteq> None
         \<and> (\<forall>r \<in> set (tbl_sessions (fst (stopSpeaking e participant t s))).
               participant_id r = p_id participant \<longrightarrow> ended_at r \<noteq> None)"
proof -
  define f :: "speaking_session \<Rightarrow> speaking_session" where
    "f = (\<lambda>r. if s_id r = sid
              then r\<lparr>ended_at := Some (clock e), duration := Some (currentSessionTime t)\<rparr>
              else r)"
  let ?mine = "\<lambda>r. participant_id r = p_id participant"
  let ?ss = "tbl_sessions s"
  have only: "r = x" if "r \<in> set ?ss" "s_id r = sid" for r
  proof -
    have "inj_on s_id (set ?ss)" using pk by (simp add: distinct_map)
    then show ?thesis using that x(1,2) by (auto dest: inj_onD)
  qed
  have "tbl_sessions (fst (stopSpeaking e participant t s)) =
      map (\<lambda>r. if s_id r = sid \<and> owns s (auth_uid e) (meeting_id r)
                then r\<lparr>ended_at := Some (clock e), duration := Some (currentSessionTime t)\<rparr>
                else r) ?ss"
    unfolding stopSpeaking_sessions[OF ok] by (simp add: held)
  also have "\<dots> = map f ?ss"
    unfolding f_def by (rule map_cong) (use only own in auto)
  finally have after: "tbl_sessions (fst (stopSpeaking e participant t s)) = map f ?ss" .
  have fp: "participant_id (f r) = participant_id r" for r
    by (simp add: f_def)
  have filt: "filter ?mine (map f ?ss) = map f (filter ?mine ?ss)"
    by (simp add: filter_map comp_def fp)
  have ne: "filter ?mine ?ss \<noteq> []"
    using x(1,3) by (auto simp: filter_empty_conv)
  have latest: "last (filter ?mine ?ss) = x"
    using inv x(1,3,4) by (auto simp: open_is_latest_def)
  have lastf: "last (filter ?mine (map f ?ss)) = f x"
    unfolding filt using ne latest by (simp add: last_map)
  have fx: "ended_at (f x) \<noteq> None" "duration (f x) \<noteq> None"
    using x(2) by (simp_all add: f_def)
  have none_open: "ended_at r' \<noteq> None"
    if "r' \<in> set (map f ?ss)" "participant_id r' = p_id participant" for r'
  proof -
    from that(1) obtain r where r: "r \<in> set ?ss" "r' = f r" by auto
    show ?thesis
    proof (cases "s_id r = sid")
      case True
      then show ?thesis using r(2) by (simp add: f_def)
    next
      case False
      then have same: "r' = r" using r(2) by (simp add: f_def)
      show ?thesis
      proof
        assume "ended_at r' = None"
        with same r(1) inv have "last (filter (\<lambda>y. participant_id y = participant_id r) ?ss) = r"
          by (auto simp: open_is_latest_def)
        moreover have "participant_id r = p_id participant"
          using that(2) same by simp
        ultimately have "r = x" using latest by simp
        with False x(2) show False by simp
      qed
    qed
  qed
  show ?thesis
    unfolding after using lastf fx none_open by auto
qed

theorem stopSpeaking_closes_ledger_witness:
  "lost (user7 105 51) = [] \<and> activeSessionId timer5 = Some 50 \<and>
   hd (tbl_sessions store1) \<in> set (tbl_sessions store1) \<and>
   s_id (hd (tbl_sessions store1)) = 50 \<and>
   participant_id (hd (tbl_sessions store1)) = p_id alice_speaking \<and>
   ended_at (hd (tbl_sessions store1)) = None \<and>
   owns store1 (auth_uid (user7 105 51)) (meeting_id (hd (tbl_sessions store1))) \<and>
   distinct (map s_id (tbl_sessions store1)) \<and>
   open_is_latest (tbl_sessions store1) \<and>
   map ended_at (tbl_sessions (fst (stopSpeaking (user7 105 51) alice_speaking timer5 store1)))
     = [Some 105] \<and>
   map duration (tbl_sessions (fst (stopSpeaking (user7 105 51) alice_speaking timer5 store1)))
     = [Some 5] \<and>
   filter (\<lambda>r. participant_id r = p_id alice_speaking \<and> ended_at r = None)
     (tbl_sessions (fst (stopSpeaking (user7 105 51) alice_speaking timer5 store1))) = []"
proof -
  have h1: "lost (user7 105 51) = []"
    by (simp add: demo_defs)
  have h2: "activeSessionId timer5 = Some 50"
    by (simp add: demo_defs)
  have h3: "hd (tbl_sessions store1) \<in> set (tbl_sessions store1)"
    and h4: "s_id (hd (tbl_sessions store1)) = 50"
    and h5: "participant_id (hd (tbl_sessions store1)) = p_id alice_speaking"
    and h6: "ended_at (hd (tbl_sessions store1)) = None"
    by (simp_all add: demo_defs)
  have h7: "owns store1 (auth_uid (user7 105 51)) (meeting_id (hd (tbl_sessions store1)))"
    by (simp add: demo_defs owns_def)
  have h8: "distinct (map s_id (tbl_sessions store1))"
    by (simp add: demo_defs)
  have h9: "open_is_latest (tbl_sessions store1)"
    by (simp add: demo_defs open_is_latest_def)
  have run: "tbl_sessions (fst (stopSpeaking (user7 105 51) alice_speaking timer5 store1)) =
     [\<lparr>s_id = 50, participant_id = 10, meeting_id = 1, started_at = 100,
       ended_at = Some 105, duration = Some 5\<rparr>]"
    by (simp add: demo_defs op_defs)
  from stopSpeaking_closes_ledger[OF h1 h2 h3 h4 h5 h6 h7 h8 h9]
  have closed: "filter (\<lambda>r. participant_id r = p_id alice_speaking \<and> ended_at r = None)
     (tbl_sessions (fst (stopSpeaking (user7 105 51) alice_speaking timer5 store1))) = []"
    by (simp add: filter_empty_conv)
  show ?thesis
    using h1 h2 h3 h4 h5 h6 h7 h8 h9 closed
    by (simp add: run)
qed

section \<open>The toggle of ParticipantsNameList\<close>


lemma aggregates_update_sessions: "aggregates (update_sessions u P f s) = aggregates s"
  by (simp add: aggregates_def update_sessions_tables)



text \<open>
  The table \<^verbatim>\<open>speaking_sessions\<close> has no column \<^verbatim>\<open>start_time\<close> and none called
  \<^verbatim>\<open>end_time\<close>: the store refuses the toggle's insert and the toggle's update, whoever
  asks and whatever the tables hold.
\<close>

lemma start_time_refused:
  "call_checked e c (insert_session_stamped u ''start_time'' v row) s =
     Inl (if c \<in> set (lost e) then Unreachable else UndefinedColumn)"
  by (simp add: call_checked_def insert_session_stamped_def write_timestamp_def)

lemma end_time_refused:
  "call_checked e c (stamp_sessions_where_null u ''end_time'' v P) s =
     Inl (if c \<in> set (lost e) then Unreachable else UndefinedColumn)"
  by (simp add: call_checked_def stamp_sessions_where_null_def write_timestamp_def
      read_timestamp_def)

text \<open>
  So the toggle comes to this: the participants' marks are written, and after the second
  of these updates the request on the ledger fails and the error toast is shown.
\<close>

lemma toggle_unfolded:
  "toggleParticipantSpeaking e ps m pid ap s =
     (case find (\<lambda>p. p_id p = pid) ps of
        None \<Rightarrow> (s, ap, None)
      | Some participant \<Rightarrow>
          (case call_checked e SetSpeaking
                  (\<lambda>x. Inr (update_participants (auth_uid e) (\<lambda>r. p_id r = pid)
                               (\<lambda>r. r\<lparr>is_currently_speaking :=
                                          \<not> is_currently_speaking participant\<rparr>) x))
                  (if \<not> is_currently_speaking participant
                   then call_unchecked e ClearSpeaking
                          (update_participants (auth_uid e) (\<lambda>r. p_meeting_id r = m)
                             (\<lambda>r. r\<lparr>is_currently_speaking := False\<rparr>)) s
                   else s) of
             Inl error \<Rightarrow>
               (if \<not> is_currently_speaking participant
                then call_unchecked e ClearSpeaking
                       (update_participants (auth_uid e) (\<lambda>r. p_meeting_id r = m)
                          (\<lambda>r. r\<lparr>is_currently_speaking := False\<rparr>)) s
                else s)
           | Inr s2 \<Rightarrow> s2,
           ap, Some (Destructive ''Error'' ''Failed to update speaking status'')))"
  by (simp add: toggleParticipantSpeaking_def Let_def start_time_refused end_time_refused
      split: option.split sum.split)

lemma toggle_sessions:
  "tbl_sessions (fst (toggleParticipantSpeaking e ps m pid ap s)) = tbl_sessions s"
  unfolding toggle_unfolded
  by (simp add: call_checked_def call_unchecked_def update_participants_tables
      split: option.split sum.split)


lemma toggle_toast:
  "find (\<lambda>p. p_id p = pid) ps \<noteq> None \<Longrightarrow>
   snd (snd (toggleParticipantSpeaking e ps m pid ap s)) =
     Some (Destructive ''Error'' ''Failed to update speaking status'')"
  unfolding toggle_unfolded by (auto split: option.split)

text \<open>
  Claim C5. The claim has \<open>toggleParticipantSpeaking\<close>, when it stops a speaking
  participant, write an end timestamp on that participant's open session rows. The code
  names the column \<^verbatim>\<open>end_time\<close>, the table has \<^verbatim>\<open>ended_at\<close>: with Alice speaking since
  100 and her meeting's owner stopping her at 105 with every call answered, her mark is
  cleared, her open session row is left open (no end timestamp, no duration), the
  totals are as they were, the active participant the view holds is not reset, and the
  view shows the toast of a failed update.
\<close>

theorem toggle_stop_leaves_session_open:
  "lost (user7 105 51) = [] \<and>
   tbl_sessions store1 =
     [\<lparr>s_id = 50, participant_id = 10, meeting_id = 1, started_at = 100,
       ended_at = None, duration = None\<rparr>] \<and>
   toggleParticipantSpeaking (user7 105 51) [alice_speaking, bob] 1 10 (Some 10) store1 =
     (store1\<lparr>tbl_participants := [alice, bob]\<rparr>, Some 10,
      Some (Destructive ''Error'' ''Failed to update speaking status''))"
  by (simp add: toggle_unfolded demo_defs call_checked_def update_participants_def owns_def)

section \<open>Validation\<close>

text \<open>
  Claim C9. When the title is blank, or no participant name is non-blank,
  \<open>handleCreate\<close> returns the store and the form as they were, with an error toast; so
  does \<open>submitQuestion\<close> when the question is blank, or the name is blank and the
  anonymity box is not ticked. This holds in every environment, so nothing was sent.
\<close>

theorem validation_sends_nothing:
  "(trim e (f_title f) = [] \<or> filter (\<lambda>p. trim e p \<noteq> []) (f_participants f) = [] \<longrightarrow>
      handleCreate e f s =
        (s, f, Some (Destructive ''Error''
                       (if trim e (f_title f) = [] then ''Please enter a meeting title''
                        else ''Please add at least one participant''))))
   \<and> (trim e newQuestion = [] \<or> (\<not> isAnonymous \<and> trim e askerName = []) \<longrightarrow>
      submitQuestion e meetingId newQuestion askerName isAnonymous s =
        (s, newQuestion, Some (Destructive ''Error''
                       (if trim e newQuestion = [] then ''Please enter a question''
                        else ''Please enter your name or submit anonymously''))))"
  by (simp add: handleCreate_def submitQuestion_def Let_def)

theorem validation_sends_nothing_witness:
  "trim (user7 0 60) ''   '' = [] \<and>
   filter (\<lambda>p. trim (user7 0 60) p \<noteq> []) ['''', '' ''] = [] \<and>
   handleCreate (user7 0 60) \<lparr>f_title = ''   '', f_participants = [''Carol'']\<rparr> store0 =
     (store0, \<lparr>f_title = ''   '', f_participants = [''Carol'']\<rparr>,
      Some (Destructive ''Error'' ''Please enter a meeting title'')) \<and>
   handleCreate (user7 0 60) \<lparr>f_title = ''Retro'', f_participants = ['''', '' '']\<rparr> store0 =
     (store0, \<lparr>f_title = ''Retro'', f_participants = ['''', '' '']\<rparr>,
      Some (Destructive ''Error'' ''Please add at least one participant'')) \<and>
   submitQuestion (user7 0 60) 1 '' '' ''Dan'' False store0 =
     (store0, '' '', Some (Destructive ''Error'' ''Please enter a question'')) \<and>
   submitQuestion (user7 0 60) 1 ''Why?'' '' '' False store0 =
     (store0, ''Why?'', Some (Destructive ''Error''
                                ''Please enter your name or submit anonymously''))"
proof -
  have h1: "trim (user7 0 60) ''   '' = []"
    by (simp add: trim_def user7_def)
  have h2: "filter (\<lambda>p. trim (user7 0 60) p \<noteq> []) ['''', '' ''] = []"
    by (simp add: trim_def user7_def)
  have h3: "trim (user7 0 60) ''Retro'' \<noteq> []"
    by (simp add: trim_def user7_def)
  have h4: "trim (user7 0 60) '' '' = []"
    by (simp add: trim_def user7_def)
  have h5: "trim (user7 0 60) ''Why?'' \<noteq> []"
    by (simp add: trim_def user7_def)
  show ?thesis
    using h1 h2 h3 h4 h5
      validation_sends_nothing[of "user7 0 60" "\<lparr>f_title = ''   '', f_participants = [''Carol'']\<rparr>"
        store0 "'' ''" False "''Dan''" 1]
      validation_sends_nothing[of "user7 0 60" "\<lparr>f_title = ''Retro'', f_participants = ['''', '' '']\<rparr>"
        store0 "''Why?''" False "'' ''" 1]
    by simp
qed

section \<open>The live counters\<close>

text \<open>
  Claim C8. When no fetched participant is marked as speaking, the effect leaves the local
  counters empty. When the speaking participant (the first one marked, which is what
  \<^verbatim>\<open>find\<close> returns) has no local counter, the counters become the single entry for that
  participant, with \<open>baseSeconds\<close> its stored \<open>total_speaking_time\<close> and \<open>startTime\<close>
  the instant of the observation.
\<close>

theorem sync_counters_follows_feed:
  "((\<forall>p \<in> set participants. \<not> is_currently_speaking p) \<longrightarrow>
      sync_counters date_now participants localCounters = [])
   \<and> (find is_currently_speaking participants = Some p \<and> map_of localCounters (p_id p) = None \<longrightarrow>
      sync_counters date_now participants localCounters =
        [(p_id p, \<lparr>startTime = date_now, baseSeconds = total_speaking_time p\<rparr>)])"
proof -
  have "find is_currently_speaking participants = None"
    if "\<forall>p \<in> set participants. \<not> is_currently_speaking p"
    using that by (simp add: find_None_iff)
  then show ?thesis
    by (auto simp: sync_counters_def)
qed

theorem sync_counters_follows_feed_witness:
  "filter is_currently_speaking [alice, bob] = [] \<and>
   sync_counters 7000 [alice, bob] [(10, \<lparr>startTime = 1000, baseSeconds = 0\<rparr>)] = [] \<and>
   find is_currently_speaking [bob, alice_speaking\<lparr>total_speaking_time := 42\<rparr>]
     = Some (alice_speaking\<lparr>total_speaking_time := 42\<rparr>) \<and>
   map_of [(11, \<lparr>startTime = 1000, baseSeconds = 0\<rparr>)]
     (p_id (alice_speaking\<lparr>total_speaking_time := 42\<rparr>)) = None \<and>
   sync_counters 7000 [bob, alice_speaking\<lparr>total_speaking_time := 42\<rparr>]
       [(11, \<lparr>startTime = 1000, baseSeconds = 0\<rparr>)] =
     [(10, \<lparr>startTime = 7000, baseSeconds = 42\<rparr>)]"
proof -
  have h1: "\<forall>p \<in> set [alice, bob]. \<not> is_currently_speaking p"
    by (simp add: demo_defs)
  have h2: "find is_currently_speaking [bob, alice_speaking\<lparr>total_speaking_time := 42\<rparr>]
     = Some (alice_speaking\<lparr>total_speaking_time := 42\<rparr>)"
    by (simp add: demo_defs)
  have h3: "map_of [(11, \<lparr>startTime = 1000, baseSeconds = 0\<rparr>)]
     (p_id (alice_speaking\<lparr>total_speaking_time := 42\<rparr>)) = None"
    by (simp add: demo_defs)
  have h0: "filter is_currently_speaking [alice, bob] = []"
    by (simp add: demo_defs)
  show ?thesis
    using h0 h1 h2 h3
      sync_counters_follows_feed[of "[alice, bob]" 7000
        "[(10, \<lparr>startTime = 1000, baseSeconds = 0\<rparr>)]"]
      sync_counters_follows_feed[of "[bob, alice_speaking\<lparr>total_speaking_time := 42\<rparr>]"
        7000 "[(11, \<lparr>startTime = 1000, baseSeconds = 0\<rparr>)]"
        "alice_speaking\<lparr>total_speaking_time := 42\<rparr>"]
    by (simp add: demo_defs)
qed

section \<open>Creating a meeting\<close>

lemma update_meetings_tables:
  "tbl_meetings (update_meetings u P f s) =
     map (\<lambda>r. if P r \<and> Some (created_by r) = u then f r else r) (tbl_meetings s)"
  "tbl_participants (update_meetings u P f s) = tbl_participants s"
  "tbl_sessions (update_meetings u P f s) = tbl_sessions s"
  "tbl_questions (update_meetings u P f s) = tbl_questions s"
  by (simp_all add: update_meetings_def)

lemma insert_meeting_Inr:
  "insert_meeting u i ttl stamp s = Inr s' \<longleftrightarrow>
     (\<exists>user. u = Some user \<and> i \<notin> m_id ` set (tbl_meetings s) \<and>
        s' = s\<lparr>tbl_meetings := tbl_meetings s @
                 [\<lparr>m_id = i, m_title = ttl, created_by = user, is_active = True,
                   m_created_at = stamp, m_ended_at = None\<rparr>]\<rparr>)"
  by (auto simp: insert_meeting_def split: option.splits)

lemma insert_participants_Inr:
  "insert_participants u rows s = Inr s' \<longleftrightarrow>
     distinct (map p_id rows) \<and> (\<forall>r \<in> set rows. p_id r \<notin> p_id ` set (tbl_participants s)) \<and>
     (\<forall>r \<in> set rows. owns s u (p_meeting_id r)) \<and>
     s' = s\<lparr>tbl_participants := tbl_participants s @ rows\<rparr>"
  by (auto simp: insert_participants_def)

lemma handleCreate_created:
  assumes ok: "lost e = []"
    and succ: "created (snd (snd (handleCreate e f s)))"
  shows "\<exists>user. auth_uid e = Some user \<and>
     tbl_meetings (fst (handleCreate e f s)) =
       map (\<lambda>r. if is_active r \<and> created_by r = user
                 then r\<lparr>is_active := False, m_ended_at := Some (clock e)\<rparr> else r)
         (tbl_meetings s)
       @ [\<lparr>m_id = gen_id e 0, m_title = trim e (f_title f), created_by = user,
            is_active = True, m_created_at = db_clock e, m_ended_at = None\<rparr>]"
proof -
  let ?valid = "filter (\<lambda>p. trim e p \<noteq> []) (f_participants f)"
  let ?s1 = "update_meetings (auth_uid e) (\<lambda>r. is_active r)
                (\<lambda>r. r\<lparr>is_active := False, m_ended_at := Some (clock e)\<rparr>) s"
  let ?rows = "map (\<lambda>(i, name).
                    \<lparr>p_id = gen_id e (Suc i), p_meeting_id = gen_id e 0,
                      p_name = trim e name, total_speaking_time = 0,
                      speaking_sessions = 0, is_currently_speaking = False\<rparr>)
                 (enumerate 0 ?valid)"
  have t: "trim e (f_title f) \<noteq> []" and v: "?valid \<noteq> []"
    using succ by (auto simp: handleCreate_def created_def Let_def split: if_splits)
  obtain s2 where s2: "insert_meeting (auth_uid e) (gen_id e 0) (trim e (f_title f)) (db_clock e) ?s1
      = Inr s2"
    using succ t v ok
    by (cases "insert_meeting (auth_uid e) (gen_id e 0) (trim e (f_title f)) (db_clock e) ?s1")
      (simp_all add: handleCreate_def created_def Let_def call_checked_def call_unchecked_def)
  obtain s3 where s3: "insert_participants (auth_uid e) ?rows s2 = Inr s3"
    using succ t v ok s2
    by (cases "insert_participants (auth_uid e) ?rows s2")
      (simp_all add: handleCreate_def created_def Let_def call_checked_def call_unchecked_def)
  have res: "fst (handleCreate e f s) = s3"
    using t v ok s2 s3
    by (simp add: handleCreate_def Let_def call_checked_def call_unchecked_def)
  from s2 obtain user where user: "auth_uid e = Some user"
      "s2 = ?s1\<lparr>tbl_meetings := tbl_meetings ?s1 @
                 [\<lparr>m_id = gen_id e 0, m_title = trim e (f_title f), created_by = user,
                   is_active = True, m_created_at = db_clock e, m_ended_at = None\<rparr>]\<rparr>"
    unfolding insert_meeting_Inr by blast
  from s3 have "tbl_meetings s3 = tbl_meetings s2"
    unfolding insert_participants_Inr by simp
  then have "tbl_meetings (fst (handleCreate e f s)) =
       map (\<lambda>r. if is_active r \<and> created_by r = user
                 then r\<lparr>is_active := False, m_ended_at := Some (clock e)\<rparr> else r)
         (tbl_meetings s)
       @ [\<lparr>m_id = gen_id e 0, m_title = trim e (f_title f), created_by = user,
            is_active = True, m_created_at = db_clock e, m_ended_at = None\<rparr>]"
    unfolding res user(2) by (simp add: update_meetings_tables user(1))
  with user(1) show ?thesis by blast
qed

text \<open>
  Claim C7, amended. A run of \<open>handleCreate\<close> that completes with no call failing first
  sets \<open>is_active\<close> to false and stamps \<open>ended_at\<close> on every active meeting that the
  caller created (the update policy on \<^verbatim>\<open>meetings\<close> lets a caller touch only those), then
  inserts the new meeting. Afterwards the new meeting is the only active one among the
  caller's meetings, and the active meetings of other users are the ones there were.
\<close>

theorem handleCreate_sole_active_of_owner:
  assumes ok: "lost e = []"
    and succ: "created (snd (snd (handleCreate e f s)))"
    and uid: "auth_uid e = Some user"
  shows "tbl_meetings (fst (handleCreate e f s)) =
       map (\<lambda>r. if is_active r \<and> created_by r = user
                 then r\<lparr>is_active := False, m_ended_at := Some (clock e)\<rparr> else r)
         (tbl_meetings s)
       @ [\<lparr>m_id = gen_id e 0, m_title = trim e (f_title f), created_by = user,
            is_active = True, m_created_at = db_clock e, m_ended_at = None\<rparr>]
     \<and> map m_id (filter (\<lambda>r. is_active r \<and> created_by r = user)
                   (tbl_meetings (fst (handleCreate e f s)))) = [gen_id e 0]
     \<and> filter (\<lambda>r. is_active r \<and> created_by r \<noteq> user) (tbl_meetings (fst (handleCreate e f s)))
         = filter (\<lambda>r. is_active r \<and> created_by r \<noteq> user) (tbl_meetings s)"
proof -
  let ?endf = "\<lambda>r. if is_active r \<and> created_by r = user
                 then r\<lparr>is_active := False, m_ended_at := Some (clock e)\<rparr> else r"
  from handleCreate_created[OF ok succ] uid
  have tbl: "tbl_meetings (fst (handleCreate e f s)) =
       map ?endf (tbl_meetings s)
       @ [\<lparr>m_id = gen_id e 0, m_title = trim e (f_title f), created_by = user,
            is_active = True, m_created_at = db_clock e, m_ended_at = None\<rparr>]"
    by simp
  have mine: "filter (\<lambda>r. is_active r \<and> created_by r = user) (map ?endf xs) = []" for xs
    by (induction xs) simp_all
  have others: "filter (\<lambda>r. is_active r \<and> created_by r \<noteq> user) (map ?endf xs) =
      filter (\<lambda>r. is_active r \<and> created_by r \<noteq> user) xs" for xs
    by (induction xs) simp_all
  show ?thesis
    unfolding tbl by (simp add: mine others)
qed

lemmas create_defs = handleCreate_def call_checked_def call_unchecked_def insert_meeting_def
  insert_participants_def update_meetings_def owns_def trim_def Let_def created_def

theorem handleCreate_sole_active_of_owner_witness:
  "lost (user7 200 60) = [] \<and>
   created (snd (snd (handleCreate (user7 200 60)
                        \<lparr>f_title = ''Retro'', f_participants = [''Carol'']\<rparr> store0))) \<and>
   auth_uid (user7 200 60) = Some 7 \<and>
   map (\<lambda>r. (m_id r, is_active r, m_ended_at r))
     (tbl_meetings (fst (handleCreate (user7 200 60)
                           \<lparr>f_title = ''Retro'', f_participants = [''Carol'']\<rparr> store0)))
     = [(1, False, Some 200), (60, True, None)]"
proof -
  have h1: "lost (user7 200 60) = []"
    by (simp add: demo_defs)
  have h2: "created (snd (snd (handleCreate (user7 200 60)
                        \<lparr>f_title = ''Retro'', f_participants = [''Carol'']\<rparr> store0)))"
    by (simp add: demo_defs create_defs enumerate_eq_zip)
  have h3: "auth_uid (user7 200 60) = Some 7"
    by (simp add: demo_defs)
  show ?thesis
    using h1 h2 h3 handleCreate_sole_active_of_owner[OF h1 h2 h3]
    by (simp add: demo_defs)
qed

text \<open>
  Claim C7 as stated fails: user 8 creates a meeting while the meeting of user 7 is
  active. The run completes, and both meetings are active afterwards.
\<close>

theorem handleCreate_other_owner_counterexample:
  "lost ((user7 200 60)\<lparr>auth_uid := Some 8\<rparr>) = [] \<and>
   snd (snd (handleCreate ((user7 200 60)\<lparr>auth_uid := Some 8\<rparr>)
               \<lparr>f_title = ''Retro'', f_participants = [''Carol'']\<rparr> store0))
     = Some (MeetingCreated ''Retro'' 1) \<and>
   map m_id (filter is_active
     (tbl_meetings (fst (handleCreate ((user7 200 60)\<lparr>auth_uid := Some 8\<rparr>)
                           \<lparr>f_title = ''Retro'', f_participants = [''Carol'']\<rparr> store0))))
     = [1, 60]"
  by (simp add: demo_defs create_defs enumerate_eq_zip)

section \<open>Totals only grow\<close>











lemma addParticipant_participants:
  "fst (addParticipant e m name s) = s \<or>
   (tbl_participants (fst (addParticipant e m name s)) =
      tbl_participants s @
        [\<lparr>p_id = gen_id e 0, p_meeting_id = m, p_name = trim e name, total_speaking_time = 0,
          speaking_sessions = 0, is_currently_speaking = False\<rparr>]
    \<and> gen_id e 0 \<notin> p_id ` set (tbl_participants s))"
proof (cases "trim e name = []")
  case True
  then show ?thesis by (simp add: addParticipant_def)
next
  case False
  let ?row = "\<lparr>p_id = gen_id e 0, p_meeting_id = m, p_name = trim e name, total_speaking_time = 0,
          speaking_sessions = 0, is_currently_speaking = False\<rparr>"
  show ?thesis
  proof (cases "call_checked e InsertParticipants (insert_participants (auth_uid e) [?row]) s")
    case (Inl err)
    then show ?thesis using False by (simp add: addParticipant_def)
  next
    case (Inr s1)
    then have "insert_participants (auth_uid e) [?row] s = Inr s1"
      by (simp add: call_checked_def split: if_splits)
    then have "tbl_participants s1 = tbl_participants s @ [?row]"
        "gen_id e 0 \<notin> p_id ` set (tbl_participants s)"
      by (simp_all add: insert_participants_Inr)
    then show ?thesis using False Inr by (simp add: addParticipant_def)
  qed
qed

lemma handleCreate_participants:
  "fst (handleCreate e f s) = s \<or>
   (\<exists>rows. tbl_participants (fst (handleCreate e f s)) = tbl_participants s @ rows
      \<and> distinct (map p_id rows)
      \<and> (\<forall>r \<in> set rows. p_id r \<notin> p_id ` set (tbl_participants s)))"
proof -
  let ?valid = "filter (\<lambda>p. trim e p \<noteq> []) (f_participants f)"
  let ?s1 = "call_unchecked e EndMeetings
                (update_meetings (auth_uid e) (\<lambda>r. is_active r)
                   (\<lambda>r. r\<lparr>is_active := False, m_ended_at := Some (clock e)\<rparr>)) s"
  let ?rows = "map (\<lambda>(i, name).
                    \<lparr>p_id = gen_id e (Suc i), p_meeting_id = gen_id e 0,
                      p_name = trim e name, total_speaking_time = 0,
                      speaking_sessions = 0, is_currently_speaking = False\<rparr>)
                 (enumerate 0 ?valid)"
  have p1: "tbl_participants ?s1 = tbl_participants s"
    by (simp add: call_unchecked_def update_meetings_tables)
  show ?thesis
  proof (cases "trim e (f_title f) = [] \<or> ?valid = []")
    case True
    then show ?thesis by (auto simp: handleCreate_def Let_def)
  next
    case False
    then have t: "trim e (f_title f) \<noteq> []" and v: "?valid \<noteq> []" by simp_all
    show ?thesis
    proof (cases "call_checked e InsertMeeting
                       (insert_meeting (auth_uid e) (gen_id e 0) (trim e (f_title f))
                          (db_clock e)) ?s1")
      case (Inl err)
      have "tbl_participants (fst (handleCreate e f s)) = tbl_participants s @ []"
        using t v Inl p1 by (simp add: handleCreate_def Let_def)
      then show ?thesis by (intro disjI2 exI[of _ "[]"]) simp
    next
      case m: (Inr s2)
      then have "insert_meeting (auth_uid e) (gen_id e 0) (trim e (f_title f)) (db_clock e) ?s1
          = Inr s2"
        by (simp add: call_checked_def split: if_splits)
      then have p2: "tbl_participants s2 = tbl_participants s"
        unfolding insert_meeting_Inr using p1 by auto
      show ?thesis
      proof (cases "call_checked e InsertParticipants
                              (insert_participants (auth_uid e) ?rows) s2")
        case (Inl err)
        have "tbl_participants (fst (handleCreate e f s)) = tbl_participants s @ []"
          using t v m Inl p2 by (simp add: handleCreate_def Let_def)
        then show ?thesis by (intro disjI2 exI[of _ "[]"]) simp
      next
        case (Inr s3)
        then have ins: "insert_participants (auth_uid e) ?rows s2 = Inr s3"
          by (simp add: call_checked_def split: if_splits)
        have "tbl_participants (fst (handleCreate e f s)) = tbl_participants s @ ?rows"
          using t v m Inr ins p2 by (simp add: handleCreate_def Let_def insert_participants_Inr)
        moreover have "distinct (map p_id ?rows)"
            "\<forall>r \<in> set ?rows. p_id r \<notin> p_id ` set (tbl_participants s)"
          using ins p2 unfolding insert_participants_Inr by simp_all
        ultimately show ?thesis by blast
      qed
    qed
  qed
qed

lemma card_of_Some:
  assumes "card_of c pid = Some participant"
  shows "participant \<in> set (fetched c)" and "p_id participant = pid"
  using assms unfolding card_of_def by (auto simp: find_Some_iff)

lemma perform_Press:
  assumes card: "card_of c pid = Some participant"
  shows "perform (Press e pid) c =
     (if is_currently_speaking participant
      then c\<lparr>db := fst (stopSpeaking e participant (timers c pid) (db c)),
             timers := (timers c)
               (pid := fst (snd (stopSpeaking e participant (timers c pid) (db c))))\<rparr>
      else c\<lparr>db := fst (startSpeaking e participant (meeting c) (timers c pid) (db c)),
             timers := (timers c)
               (pid := fst (snd (startSpeaking e participant (meeting c) (timers c pid)
                                   (db c))))\<rparr>)"
  by (simp add: card press_def case_prod_unfold)

















section \<open>The ledger along a run\<close>

lemma ledger_ok_more_participants:
  assumes inv: "ledger_ok s"
    and ss: "tbl_sessions s' = tbl_sessions s"
    and ps: "tbl_participants s' = tbl_participants s @ rows"
    and pk: "distinct (map p_id (tbl_participants s'))"
  shows "ledger_ok s'"
  using inv pk unfolding ledger_ok_def ss ps by auto

lemma startSpeaking_refused:
  assumes ok: "lost e = []"
    and fail: "snd (snd (startSpeaking e participant meetingId t s)) \<noteq> None"
  shows "fst (startSpeaking e participant meetingId t s) =
     end_active_sessions e meetingId
       (update_participants (auth_uid e) (\<lambda>r. p_meeting_id r = meetingId)
          (\<lambda>r. r\<lparr>is_currently_speaking := False\<rparr>) s)"
  using fail by (simp add: startSpeaking_no_loss[OF ok] Let_def split: sum.splits)

lemma ledger_ok_startSpeaking_refused:
  assumes inv: "ledger_ok s" and ok: "lost e = []"
    and fail: "snd (snd (startSpeaking e participant meetingId t s)) \<noteq> None"
  shows "ledger_ok (fst (startSpeaking e participant meetingId t s))"
proof -
  let ?s1 = "update_participants (auth_uid e) (\<lambda>r. p_meeting_id r = meetingId)
          (\<lambda>r. r\<lparr>is_currently_speaking := False\<rparr>) s"
  let ?ids = "s_id ` set (select_sessions (auth_uid e)
                    (\<lambda>r. meeting_id r = meetingId \<and> ended_at r = None) ?s1)"
  show ?thesis
    unfolding startSpeaking_refused[OF ok fail]
  proof (rule ledger_ok_maps[OF inv])
    show "tbl_sessions (end_active_sessions e meetingId ?s1) =
        map (\<lambda>r. if s_id r \<in> ?ids \<and> owns s (auth_uid e) (meeting_id r)
                  then r\<lparr>ended_at := Some (clock e)\<rparr> else r) (tbl_sessions s)"
      unfolding end_active_sessions_no_loss[OF ok]
      by (simp add: update_sessions_tables update_participants_tables owns_update_participants)
    show "tbl_participants (end_active_sessions e meetingId ?s1) =
        map (\<lambda>r. if p_meeting_id r = meetingId \<and> owns s (auth_uid e) (p_meeting_id r)
                  then r\<lparr>is_currently_speaking := False\<rparr> else r) (tbl_participants s)"
      by (simp add: end_active_sessions_tables update_participants_tables)
  qed (auto split: if_splits)
qed

lemma addParticipant_sessions:
  "tbl_sessions (fst (addParticipant e m name s)) = tbl_sessions s"
proof (cases "trim e name = []")
  case True
  then show ?thesis by (simp add: addParticipant_def)
next
  case False
  let ?row = "\<lparr>p_id = gen_id e 0, p_meeting_id = m, p_name = trim e name, total_speaking_time = 0,
          speaking_sessions = 0, is_currently_speaking = False\<rparr>"
  show ?thesis
  proof (cases "call_checked e InsertParticipants (insert_participants (auth_uid e) [?row]) s")
    case (Inl err)
    then show ?thesis using False by (simp add: addParticipant_def)
  next
    case (Inr s1)
    then have "insert_participants (auth_uid e) [?row] s = Inr s1"
      by (simp add: call_checked_def split: if_splits)
    then have "tbl_sessions s1 = tbl_sessions s"
      by (simp add: insert_participants_Inr)
    then show ?thesis using False Inr by (simp add: addParticipant_def)
  qed
qed

lemma handleCreate_sessions:
  "tbl_sessions (fst (handleCreate e f s)) = tbl_sessions s"
proof -
  let ?valid = "filter (\<lambda>p. trim e p \<noteq> []) (f_participants f)"
  let ?s1 = "call_unchecked e EndMeetings
                (update_meetings (auth_uid e) (\<lambda>r. is_active r)
                   (\<lambda>r. r\<lparr>is_active := False, m_ended_at := Some (clock e)\<rparr>)) s"
  let ?rows = "map (\<lambda>(i, name).
                    \<lparr>p_id = gen_id e (Suc i), p_meeting_id = gen_id e 0,
                      p_name = trim e name, total_speaking_time = 0,
                      speaking_sessions = 0, is_currently_speaking = False\<rparr>)
                 (enumerate 0 ?valid)"
  have p1: "tbl_sessions ?s1 = tbl_sessions s"
    by (simp add: call_unchecked_def update_meetings_tables)
  show ?thesis
  proof (cases "trim e (f_title f) = [] \<or> ?valid = []")
    case True
    then show ?thesis by (auto simp: handleCreate_def Let_def)
  next
    case False
    then have t: "trim e (f_title f) \<noteq> []" and v: "?valid \<noteq> []" by simp_all
    show ?thesis
    proof (cases "call_checked e InsertMeeting
                       (insert_meeting (auth_uid e) (gen_id e 0) (trim e (f_title f))
                          (db_clock e)) ?s1")
      case (Inl err)
      then show ?thesis using t v p1 by (simp add: handleCreate_def Let_def)
    next
      case m: (Inr s2)
      then have "insert_meeting (auth_uid e) (gen_id e 0) (trim e (f_title f)) (db_clock e) ?s1
          = Inr s2"
        by (simp add: call_checked_def split: if_splits)
      then have p2: "tbl_sessions s2 = tbl_sessions s"
        unfolding insert_meeting_Inr using p1 by auto
      show ?thesis
      proof (cases "call_checked e InsertParticipants
                              (insert_participants (auth_uid e) ?rows) s2")
        case (Inl err)
        then show ?thesis using t v m p2 by (simp add: handleCreate_def Let_def)
      next
        case (Inr s3)
        then have "insert_participants (auth_uid e) ?rows s2 = Inr s3"
          by (simp add: call_checked_def split: if_splits)
        then have "tbl_sessions s3 = tbl_sessions s2"
          unfolding insert_participants_Inr by simp
        then show ?thesis using t v m Inr p2 by (simp add: handleCreate_def Let_def)
      qed
    qed
  qed
qed

lemma keeps_rows_refl: "keeps_rows s s"
  by (auto simp: keeps_rows_def)

lemma keeps_rows_map:
  assumes ps: "tbl_participants s' = map g (tbl_participants s)"
    and g: "\<And>r. p_id (g r) = p_id r" "\<And>r. p_meeting_id (g r) = p_meeting_id r"
  shows "keeps_rows s s'"
  unfolding keeps_rows_def ps
proof
  fix r assume "r \<in> set (tbl_participants s)"
  then show "\<exists>r' \<in> set (map g (tbl_participants s)).
      p_id r' = p_id r \<and> p_meeting_id r' = p_meeting_id r"
    using g by (intro bexI[of _ "g r"]) simp_all
qed

lemma keeps_rows_append:
  "tbl_participants s' = tbl_participants s @ rows \<Longrightarrow> keeps_rows s s'"
  by (auto simp: keeps_rows_def)

lemma in_step_kept:
  assumes c: "in_step c" and k: "keeps_rows (db c) s'"
  shows "in_step (c\<lparr>db := s'\<rparr>)" and "in_step (c\<lparr>db := s', timers := ts\<rparr>)"
proof -
  have "\<exists>r \<in> set (tbl_participants s'). p_id r = p_id p \<and> p_meeting_id r = meeting c"
    if p: "p \<in> set (fetched c)" for p
  proof -
    from c p obtain r where r: "r \<in> set (tbl_participants (db c))" "p_id r = p_id p"
        "p_meeting_id r = meeting c"
      unfolding in_step_def by blast
    from k r(1) obtain r' where "r' \<in> set (tbl_participants s')" "p_id r' = p_id r"
        "p_meeting_id r' = p_meeting_id r"
      unfolding keeps_rows_def by blast
    with r show ?thesis by (intro bexI[of _ r']) simp_all
  qed
  with c show "in_step (c\<lparr>db := s'\<rparr>)" and "in_step (c\<lparr>db := s', timers := ts\<rparr>)"
    by (simp_all add: in_step_def)
qed

lemma startSpeaking_keeps_rows:
  assumes inv: "ledger_ok s" and ok: "lost e = []"
  shows "keeps_rows s (fst (startSpeaking e participant meetingId t s))"
proof (cases "snd (snd (startSpeaking e participant meetingId t s)) = None")
  case True
  show ?thesis
    by (rule keeps_rows_map[OF startSpeaking_participants[OF ok True]]) simp_all
next
  case False
  show ?thesis
    unfolding startSpeaking_refused[OF ok False]
    by (rule keeps_rows_map[where g = "\<lambda>r. if p_meeting_id r = meetingId
                  \<and> owns s (auth_uid e) (p_meeting_id r)
                then r\<lparr>is_currently_speaking := False\<rparr> else r"])
      (simp_all add: end_active_sessions_tables update_participants_tables)
qed

lemma stopSpeaking_keeps_rows:
  "keeps_rows s (fst (stopSpeaking e participant t s))"
  by (rule keeps_rows_map[OF stopSpeaking_participants_any]) simp_all

lemma fetchParticipants_in_step:
  assumes c: "in_step c"
  shows "in_step (c\<lparr>fetched := fst (fetchParticipants e (meeting c) (fetched c) (db c))\<rparr>)"
proof (cases "FetchParticipants \<in> set (lost e)")
  case True
  then show ?thesis using c by (simp add: fetchParticipants_def in_step_def)
next
  case False
  then show ?thesis
    by (auto simp: fetchParticipants_def in_step_def select_participants_def)
qed

lemma perform_ledger_ok:
  assumes inv: "ledger_ok (db c)" and step: "in_step c" and a: "clean a"
  shows "ledger_ok (db (perform a c)) \<and> in_step (perform a c)"
proof (cases a)
  case (AddParticipant e name)
  have pk: "distinct (map p_id (tbl_participants (db c)))"
    using inv by (simp add: ledger_ok_def)
  from addParticipant_participants[of e "meeting c" name "db c"]
  show ?thesis
  proof
    assume same: "fst (addParticipant e (meeting c) name (db c)) = db c"
    have "c\<lparr>db := db c\<rparr> = c" by simp
    then show ?thesis using inv step same by (simp add: AddParticipant)
  next
    assume app: "tbl_participants (fst (addParticipant e (meeting c) name (db c))) =
      tbl_participants (db c) @
        [\<lparr>p_id = gen_id e 0, p_meeting_id = meeting c, p_name = trim e name,
          total_speaking_time = 0, speaking_sessions = 0, is_currently_speaking = False\<rparr>]
      \<and> gen_id e 0 \<notin> p_id ` set (tbl_participants (db c))"
    then have "distinct (map p_id (tbl_participants (fst (addParticipant e (meeting c) name
        (db c)))))"
      using pk by simp
    with app have "ledger_ok (fst (addParticipant e (meeting c) name (db c)))"
      using ledger_ok_more_participants[OF inv addParticipant_sessions] by blast
    moreover have "keeps_rows (db c) (fst (addParticipant e (meeting c) name (db c)))"
      using app keeps_rows_append by blast
    ultimately show ?thesis
      using in_step_kept(1)[OF step] by (simp add: AddParticipant)
  qed
next
  case (Press e pid)
  with a have ok: "lost e = []" by simp
  show ?thesis
  proof (cases "card_of c pid")
    case None
    then show ?thesis using inv step by (simp add: Press)
  next
    case (Some participant)
    note p = perform_Press[OF Some, of e]
    show ?thesis
    proof (cases "is_currently_speaking participant")
      case True
      have "ledger_ok (fst (stopSpeaking e participant (timers c pid) (db c)))"
        by (rule ledger_ok_stopSpeaking[OF inv ok])
      then show ?thesis
        unfolding Press p using True in_step_kept(2)[OF step stopSpeaking_keeps_rows]
        by simp
    next
      case False
      let ?R = "startSpeaking e participant (meeting c) (timers c pid) (db c)"
      from step card_of_Some(1)[OF Some]
      have mem: "\<exists>q \<in> set (tbl_participants (db c)).
          p_id q = p_id participant \<and> p_meeting_id q = meeting c"
        unfolding in_step_def by blast
      have "ledger_ok (fst ?R)"
      proof (cases "snd (snd ?R) = None")
        case True
        then show ?thesis
          using ledger_ok_startSpeaking[OF inv ok _ mem] by blast
      next
        case False
        then show ?thesis
          using ledger_ok_startSpeaking_refused[OF inv ok] by blast
      qed
      then show ?thesis
        unfolding Press p
        using False in_step_kept(2)[OF step startSpeaking_keeps_rows[OF inv ok]]
        by simp
    qed
  qed
next
  case (Tick pid)
  have "in_step (c\<lparr>timers := ts\<rparr>)" for ts
    using step by (simp add: in_step_def)
  then show ?thesis
    using inv step by (cases "card_of c pid") (simp_all add: Tick)
next
  case (Toggle e pid)
  with a show ?thesis by simp
next
  case (Refetch e)
  show ?thesis
    using inv fetchParticipants_in_step[OF step] by (simp add: Refetch)
next
  case (CreateMeeting e f)
  have pk: "distinct (map p_id (tbl_participants (db c)))"
    using inv by (simp add: ledger_ok_def)
  from handleCreate_participants[of e f "db c"]
  show ?thesis
  proof
    assume same: "fst (handleCreate e f (db c)) = db c"
    have "c\<lparr>db := db c\<rparr> = c" by simp
    then show ?thesis using inv step same by (simp add: CreateMeeting)
  next
    assume "\<exists>rows. tbl_participants (fst (handleCreate e f (db c))) = tbl_participants (db c) @ rows
      \<and> distinct (map p_id rows)
      \<and> (\<forall>r \<in> set rows. p_id r \<notin> p_id ` set (tbl_participants (db c)))"
    then obtain rows where rows:
      "tbl_participants (fst (handleCreate e f (db c))) = tbl_participants (db c) @ rows"
      "distinct (map p_id rows)"
      "\<forall>r \<in> set rows. p_id r \<notin> p_id ` set (tbl_participants (db c))"
      by blast
    have "p_id ` set (tbl_participants (db c)) \<inter> p_id ` set rows = {}"
    proof (rule ccontr)
      assume "p_id ` set (tbl_participants (db c)) \<inter> p_id ` set rows \<noteq> {}"
      then obtain k where k: "k \<in> p_id ` set (tbl_participants (db c))" "k \<in> p_id ` set rows"
        by blast
      from k(2) obtain x where x: "x \<in> set rows" "k = p_id x" by (rule imageE)
      from rows(3) x(1) have "p_id x \<notin> p_id ` set (tbl_participants (db c))" by (rule bspec)
      with k(1) x(2) show False by simp
    qed
    then have "distinct (map p_id (tbl_participants (fst (handleCreate e f (db c)))))"
      unfolding rows(1) using pk rows(2) by simp
    then have "ledger_ok (fst (handleCreate e f (db c)))"
      using ledger_ok_more_participants[OF inv handleCreate_sessions rows(1)] by blast
    moreover have "keeps_rows (db c) (fst (handleCreate e f (db c)))"
      using rows(1) by (rule keeps_rows_append)
    ultimately show ?thesis
      using in_step_kept(1)[OF step] by (simp add: CreateMeeting)
  qed
qed

text \<open>
  Along a run of the cards' view in which no call of a start or a stop is lost, the ledger
  keeps its invariant, whatever the cards' props show.
\<close>

lemma run_ledger_ok:
  "ledger_ok (db c) \<Longrightarrow> in_step c \<Longrightarrow> list_all clean acts \<Longrightarrow>
   ledger_ok (db (run acts c)) \<and> in_step (run acts c)"
proof (induction acts arbitrary: c)
  case Nil
  then show ?case by simp
next
  case (Cons a acts)
  then have "ledger_ok (db (perform a c)) \<and> in_step (perform a c)"
    by (simp add: perform_ledger_ok)
  with Cons show ?case by simp
qed

lemma double_stop_ledger_ok: "ledger_ok (db (run double_stop client0))"
proof -
  have "ledger_ok (db client0)"
    by (simp add: client0_def ledger_ok_store0)
  moreover have "in_step client0"
    by (simp add: in_step_def client0_def demo_defs)
  moreover have "list_all clean double_stop"
    by (simp add: double_stop_def scenario_A_def alice_talks_def demo_defs)
  ultimately show ?thesis
    using run_ledger_ok by blast
qed

end
